theory Spec2Isabelle
  imports Complex_Main
begin

section \<open>The tiered storage of FIA database files\<close>

text \<open>
  The class \<open>FIAStorage\<close> of the storage-strategy document keeps one file
  \<open>STATE.duckdb\<close> per state in a local directory, and fills that directory from an S3
  bucket or, failing that, from the FIA DataMart through \<open>pyfia.download\<close>. The code is
  sequential Python: it holds no lock and no table of entries, the directory itself is the
  cache. The model below threads a \<open>world\<close> through the methods, in the order in which the
  Python statements run.
\<close>

subsection \<open>Files and the local directory\<close>

text \<open>
  A file has bytes and the two time stamps that \<open>Path.touch\<close> writes; \<open>st_size\<close> is what
  \<open>stat().st_size\<close> reads. Time stamps are natural numbers (any linear order would do).
\<close>

record db_file =
  content :: string
  st_atime :: nat
  st_mtime :: nat

definition st_size :: "db_file \<Rightarrow> nat" where
  "st_size f = length (content f)"

text \<open>
  The directory is the list of the \<open>*.duckdb\<close> files of \<open>local_dir\<close>, in the order in
  which \<open>glob\<close> yields them. A directory holds a name once (\<open>wf_dir\<close>). Where a new name
  appears in that order is up to the file system, so creating a file takes the position
  as an argument. A state is a region code, a single component of a path: its file
  \<open>STATE.duckdb\<close> is a name of this listing.
\<close>

type_synonym directory = "(string \<times> db_file) list"

definition wf_dir :: "directory \<Rightarrow> bool" where
  "wf_dir d = distinct (map fst d)"

definition lookup :: "directory \<Rightarrow> string \<Rightarrow> db_file option" where
  "lookup d n = map_of d n"

definition exists :: "directory \<Rightarrow> string \<Rightarrow> bool" where
  "exists d n = (lookup d n \<noteq> None)"

definition unlink :: "string \<Rightarrow> directory \<Rightarrow> directory" where
  "unlink n d = filter (\<lambda>e. fst e \<noteq> n) d"

definition write_file :: "nat \<Rightarrow> string \<Rightarrow> db_file \<Rightarrow> directory \<Rightarrow> directory" where
  "write_file pos n f d =
     (if exists d n then map (\<lambda>e. if fst e = n then (n, f) else e) d
      else take pos d @ [(n, f)] @ drop pos d)"

definition total_size :: "directory \<Rightarrow> int" where
  "total_size d = sum_list (map (\<lambda>e. int (st_size (snd e))) d)"

subsection \<open>Configuration, environment and world\<close>

text \<open>
  \<open>max_local_bytes\<close> is the Python float \<open>max_local_gb * 1e9\<close>; Python compares an
  integer with a finite float exactly, so it is a real number here (NaN and the
  infinities are left out).
\<close>

record config =
  local_dir :: string
  s3_bucket :: "string option"
  s3_prefix :: string
  max_local_bytes :: real

text \<open>The three calls that leave the process, as a mock would count them.\<close>

datatype call =
    S3_download_file string
  | S3_upload_file string
  | Pyfia_download string

text \<open>The calls of \<open>logger\<close>, one constructor per message.\<close>

datatype log_event =
    Debug_cache_hit_local string
  | Info_cache_hit_s3 string
  | Info_cache_miss string
  | Info_uploaded string
  | Info_evicted string nat
  | Warning_s3_download_failed string string
  | Warning_s3_upload_failed string string

text \<open>
  What the outside answers during one call of \<open>get_db_path\<close>. \<open>download_file\<close> of the
  S3 client writes under a temporary name beside the destination and renames the file
  once it is complete, so a download that fails leaves nothing at the destination.
  \<open>now\<close> is the clock that \<open>touch\<close> reads, \<open>new_pos\<close> the place of a new name in the
  listing.
\<close>

datatype s3_download_result =
    Downloaded db_file
  | No_such_key
  | Download_failed string

datatype s3_upload_result = Uploaded | Upload_failed string

datatype pyfia_result = Fetched db_file | Fetch_failed string

record env =
  now :: nat
  new_pos :: nat
  s3_download :: s3_download_result
  s3_upload :: s3_upload_result
  pyfia_download :: pyfia_result

record world =
  local_files :: directory
  calls :: "call list"
  logs :: "log_event list"

datatype error = Download_error string

subsection \<open>The methods of \<open>FIAStorage\<close>\<close>

text \<open>\<open>str.upper\<close> on ASCII letters; other bytes are kept.\<close>

definition char_upper :: "char \<Rightarrow> char" where
  "char_upper c =
     (let n = (of_char c :: nat) in if 97 \<le> n \<and> n \<le> 122 then char_of (n - 32) else c)"

definition upper :: "string \<Rightarrow> string" where
  "upper s = map char_upper s"

text \<open>\<open>if s3_bucket:\<close> holds for a bucket name that is neither \<open>None\<close> nor empty.\<close>

definition truthy :: "string option \<Rightarrow> bool" where
  "truthy b = (case b of None \<Rightarrow> False | Some s \<Rightarrow> s \<noteq> [])"

text \<open>\<open>__init__\<close> creates the client \<open>self.s3\<close> exactly when the bucket is set.\<close>

definition has_s3 :: "config \<Rightarrow> bool" where
  "has_s3 cfg = truthy (s3_bucket cfg)"

definition file_name :: "string \<Rightarrow> string" where
  "file_name state = state @ ''.duckdb''"

definition local_path :: "config \<Rightarrow> string \<Rightarrow> string" where
  "local_path cfg state = local_dir cfg @ ''/'' @ file_name state"

definition s3_key :: "config \<Rightarrow> string \<Rightarrow> string" where
  "s3_key cfg state = s3_prefix cfg @ ''/'' @ file_name state"

definition called :: "call \<Rightarrow> world \<Rightarrow> world" where
  "called c w = w\<lparr>calls := calls w @ [c]\<rparr>"

definition logged :: "log_event \<Rightarrow> world \<Rightarrow> world" where
  "logged l w = w\<lparr>logs := logs w @ [l]\<rparr>"

definition store :: "env \<Rightarrow> string \<Rightarrow> db_file \<Rightarrow> world \<Rightarrow> world" where
  "store e n f w = w\<lparr>local_files := write_file (new_pos e) n f (local_files w)\<rparr>"

text \<open>
  \<open>_download_from_s3\<close>: both \<open>except\<close> branches return \<open>False\<close>; the second one logs a
  warning.
\<close>

definition download_from_s3 :: "config \<Rightarrow> env \<Rightarrow> string \<Rightarrow> world \<Rightarrow> bool \<times> world" where
  "download_from_s3 cfg e state w =
     (if \<not> has_s3 cfg then (False, w)
      else
        let w1 = called (S3_download_file (s3_key cfg state)) w in
        case s3_download e of
          Downloaded f \<Rightarrow> (True, store e (file_name state) f w1)
        | No_such_key \<Rightarrow> (False, w1)
        | Download_failed msg \<Rightarrow>
            (False, logged (Warning_s3_download_failed state msg) w1))"

text \<open>
  \<open>_upload_to_s3\<close>: any exception of \<open>upload_file\<close> is caught, also the one it raises
  when the local file is gone.
\<close>

definition upload_to_s3 :: "config \<Rightarrow> env \<Rightarrow> string \<Rightarrow> world \<Rightarrow> bool \<times> world" where
  "upload_to_s3 cfg e state w =
     (if \<not> has_s3 cfg then (False, w)
      else
        let w1 = called (S3_upload_file (s3_key cfg state)) w in
        if \<not> exists (local_files w1) (file_name state)
        then (False, logged (Warning_s3_upload_failed state ''No such file or directory'') w1)
        else
          case s3_upload e of
            Uploaded \<Rightarrow> (True, logged (Info_uploaded state) w1)
          | Upload_failed msg \<Rightarrow> (False, logged (Warning_s3_upload_failed state msg) w1))"

text \<open>
  \<open>_download_from_fia\<close>: \<open>pyfia.download\<close> writes under \<open>local_dir.parent / "temp"\<close>,
  outside the cache directory, and the result is renamed into place. An exception of the
  download is not caught here nor in \<open>get_db_path\<close>.
\<close>

definition download_from_fia :: "config \<Rightarrow> env \<Rightarrow> string \<Rightarrow> world \<Rightarrow> (error + unit) \<times> world" where
  "download_from_fia cfg e state w =
     (let w1 = called (Pyfia_download state) w in
      case pyfia_download e of
        Fetched f \<Rightarrow> (Inr (), store e (file_name state) f w1)
      | Fetch_failed msg \<Rightarrow> (Inl (Download_error msg), w1))"

text \<open>\<open>_touch\<close>: \<open>Path.touch\<close> sets both time stamps, and creates an empty file if there is none.\<close>

definition touch :: "env \<Rightarrow> string \<Rightarrow> world \<Rightarrow> world" where
  "touch e n w =
     (case lookup (local_files w) n of
        Some f \<Rightarrow> store e n (f\<lparr>st_atime := now e, st_mtime := now e\<rparr>) w
      | None \<Rightarrow> store e n \<lparr>content = [], st_atime = now e, st_mtime = now e\<rparr> w)"

text \<open>
  \<open>_enforce_cache_limit\<close>: the \<open>while\<close> loop pops the head of the sorted list, so it is a
  recursion on that list. With nobody else writing the directory, \<open>oldest.stat()\<close> reads
  the size that the listing had.
\<close>

fun evict_loop :: "real \<Rightarrow> int \<Rightarrow> directory \<Rightarrow> world \<Rightarrow> world" where
  "evict_loop mx tot [] w = w"
| "evict_loop mx tot (oldest # files) w =
     (if real_of_int tot > mx then
        let sz = st_size (snd oldest) in
        evict_loop mx (tot - int sz) files
          (logged (Info_evicted (fst oldest) sz)
             (w\<lparr>local_files := unlink (fst oldest) (local_files w)\<rparr>))
      else w)"

definition enforce_cache_limit :: "config \<Rightarrow> world \<Rightarrow> world" where
  "enforce_cache_limit cfg w =
     (let files = local_files w;
          tot = total_size files
      in if real_of_int tot \<le> max_local_bytes cfg then w
         else evict_loop (max_local_bytes cfg) tot
                (sort_key (\<lambda>f. st_atime (snd f)) files) w)"

text \<open>\<open>get_db_path\<close>: the result is the returned path or the exception, with the world left behind.\<close>

definition get_db_path :: "config \<Rightarrow> env \<Rightarrow> string \<Rightarrow> world \<Rightarrow> (error + string) \<times> world" where
  "get_db_path cfg e state0 w =
     (let state = upper state0 in
      if exists (local_files w) (file_name state)
      then (Inr (local_path cfg state),
            touch e (file_name state) (logged (Debug_cache_hit_local state) w))
      else
        let (hit, w1) = (if truthy (s3_bucket cfg) then download_from_s3 cfg e state w
                         else (False, w))
        in if hit
           then (Inr (local_path cfg state),
                 enforce_cache_limit cfg (logged (Info_cache_hit_s3 state) w1))
           else
             case download_from_fia cfg e state (logged (Info_cache_miss state) w1) of
               (Inl err, w2) \<Rightarrow> (Inl err, w2)
             | (Inr u, w2) \<Rightarrow>
                 let w3 = enforce_cache_limit cfg w2;
                     w4 = (if truthy (s3_bucket cfg) then snd (upload_to_s3 cfg e state w3)
                           else w3)
                 in (Inr (local_path cfg state), w4))"

subsection \<open>Vocabulary of the statements\<close>

text \<open>\<open>precedes d x y\<close>: \<open>y\<close> is listed in \<open>d\<close> after the first occurrence of \<open>x\<close>.\<close>

definition precedes :: "'a list \<Rightarrow> 'a \<Rightarrow> 'a \<Rightarrow> bool" where
  "precedes d x y = (y \<in> set (drop 1 (dropWhile (\<lambda>e. e \<noteq> x) d)))"

text \<open>Concrete configurations, files and answers of the outside, for the worked examples.\<close>

definition example_cfg :: "string option \<Rightarrow> real \<Rightarrow> config" where
  "example_cfg bucket quota =
     \<lparr>local_dir = ''/data/fia'', s3_bucket = bucket, s3_prefix = ''fia-duckdb'',
      max_local_bytes = quota\<rparr>"

definition new_file :: "string \<Rightarrow> nat \<Rightarrow> db_file" where
  "new_file bytes t = \<lparr>content = bytes, st_atime = t, st_mtime = t\<rparr>"

definition example_env :: "nat \<Rightarrow> nat \<Rightarrow> s3_download_result \<Rightarrow> pyfia_result \<Rightarrow> env" where
  "example_env t pos s3 origin =
     \<lparr>now = t, new_pos = pos, s3_download = s3, s3_upload = Uploaded, pyfia_download = origin\<rparr>"

definition empty_world :: world where
  "empty_world = \<lparr>local_files = [], calls = [], logs = []\<rparr>"

definition world_of :: "directory \<Rightarrow> world" where
  "world_of d = \<lparr>local_files = d, calls = [], logs = []\<rparr>"

text \<open>
  Two files with the same access time: \<open>A\<close> is fetched first, then \<open>B\<close>, which the file
  system lists before \<open>A\<close>; fetching \<open>C\<close> then takes the directory over a quota of 10 bytes.
\<close>

definition tie_world1 :: world where
  "tie_world1 = snd (get_db_path (example_cfg None 10)
      (example_env 5 0 No_such_key (Fetched (new_file ''aaaa'' 5))) ''A'' empty_world)"

definition tie_world2 :: world where
  "tie_world2 = snd (get_db_path (example_cfg None 10)
      (example_env 5 0 No_such_key (Fetched (new_file ''bbbb'' 5))) ''B'' tie_world1)"

definition tie_world3 :: world where
  "tie_world3 = snd (get_db_path (example_cfg None 10)
      (example_env 6 2 No_such_key (Fetched (new_file ''cccc'' 6))) ''C'' tie_world2)"

text \<open>The directory of \<open>tie_world2\<close> with \<open>C\<close> written, before the eviction pass.\<close>

definition tie_before :: world where
  "tie_before = store (example_env 6 2 No_such_key (Fetched (new_file ''cccc'' 6))) ''C.duckdb''
      (new_file ''cccc'' 6) tie_world2"

text \<open>
  Three files \<open>A\<close>, \<open>B\<close>, \<open>C\<close> last read at times 1, 2, 3; \<open>B\<close> is read again at time 4
  through \<open>get_db_path\<close>; then a fourth file is written, which takes the directory over
  the quota of 10 bytes by one file.
\<close>

definition lru_touched :: world where
  "lru_touched = snd (get_db_path (example_cfg None 10)
     (example_env 4 0 No_such_key (Fetch_failed ''unused'')) ''B''
     (world_of [(''A.duckdb'', new_file ''aaa'' 1), (''B.duckdb'', new_file ''bbb'' 2),
                (''C.duckdb'', new_file ''ccc'' 3)]))"

definition lru_before :: world where
  "lru_before = store (example_env 5 3 No_such_key (Fetched (new_file ''ddd'' 5))) ''D.duckdb''
      (new_file ''ddd'' 5) lru_touched"

text \<open>An artifact of 5 bytes and a quota of 3 bytes, with and without an S3 bucket.\<close>

definition oversized_env :: env where
  "oversized_env = example_env 1 0 (Downloaded (new_file ''abcde'' 1)) (Fetched (new_file ''abcde'' 1))"

definition oversized_s3_first :: "(error + string) \<times> world" where
  "oversized_s3_first = get_db_path (example_cfg (Some ''fia-data'') 3) oversized_env ''NC'' empty_world"

definition oversized_s3_second :: "(error + string) \<times> world" where
  "oversized_s3_second =
     get_db_path (example_cfg (Some ''fia-data'') 3) oversized_env ''NC'' (snd oversized_s3_first)"

definition oversized_origin_first :: "(error + string) \<times> world" where
  "oversized_origin_first = get_db_path (example_cfg None 3) oversized_env ''NC'' empty_world"

definition oversized_origin_second :: "(error + string) \<times> world" where
  "oversized_origin_second =
     get_db_path (example_cfg None 3) oversized_env ''NC'' (snd oversized_origin_first)"

text \<open>The world that the S3 tier leaves behind when it did not deliver the file.\<close>

definition after_s3_miss :: "config \<Rightarrow> env \<Rightarrow> string \<Rightarrow> world \<Rightarrow> world" where
  "after_s3_miss cfg e state w =
     (if truthy (s3_bucket cfg) then snd (download_from_s3 cfg e state w) else w)"

section \<open>The directory operations\<close>

lemma wf_dir_unlink: "wf_dir d \<Longrightarrow> wf_dir (unlink n d)"
  by (simp add: wf_dir_def unlink_def distinct_map_filter)

lemma exists_iff: "exists d n \<longleftrightarrow> n \<in> fst ` set d"
  by (simp add: exists_def lookup_def map_of_eq_None_iff)

lemma wf_dir_key: "wf_dir d \<Longrightarrow> x \<in> set d \<Longrightarrow> y \<in> set d \<Longrightarrow> fst x = fst y \<Longrightarrow> x = y"
  unfolding wf_dir_def by (metis eq_key_imp_eq_value prod.collapse)

lemma wf_dir_distinct: "wf_dir d \<Longrightarrow> distinct d"
  by (simp add: wf_dir_def distinct_map)

lemma set_unlink: "wf_dir d \<Longrightarrow> x \<in> set d \<Longrightarrow> set (unlink (fst x) d) = set d - {x}"
  by (auto simp: unlink_def dest: wf_dir_key)

lemma evict_loop_files:
  "\<exists>k\<le>length fs. local_files (evict_loop mx tot fs w) =
      filter (\<lambda>e. fst e \<notin> fst ` set (take k fs)) (local_files w)"
proof (induction fs arbitrary: tot w)
  case Nil
  show ?case by simp
next
  case (Cons oldest files)
  show ?case
  proof (cases "real_of_int tot > mx")
    case False
    then have "local_files (evict_loop mx tot (oldest # files) w) =
        filter (\<lambda>e. fst e \<notin> fst ` set (take 0 (oldest # files))) (local_files w)"
      by simp
    then show ?thesis by blast
  next
    case True
    let ?w = "logged (Info_evicted (fst oldest) (st_size (snd oldest)))
                (w\<lparr>local_files := unlink (fst oldest) (local_files w)\<rparr>)"
    from Cons.IH[of "tot - int (st_size (snd oldest))" ?w]
    obtain k where k: "k \<le> length files"
      and eq: "local_files (evict_loop mx (tot - int (st_size (snd oldest))) files ?w) =
               filter (\<lambda>e. fst e \<notin> fst ` set (take k files)) (local_files ?w)"
      by blast
    have "local_files (evict_loop mx tot (oldest # files) w) =
          filter (\<lambda>e. fst e \<notin> fst ` set (take (Suc k) (oldest # files))) (local_files w)"
      using True eq by (auto simp: Let_def logged_def unlink_def intro: filter_cong)
    moreover have "Suc k \<le> length (oldest # files)" using k by simp
    ultimately show ?thesis by blast
  qed
qed

lemma filter_split_precedes:
  "filter P d = A @ B \<Longrightarrow> x \<in> set A \<Longrightarrow> y \<in> set B \<Longrightarrow> precedes d x y"
proof (induction d arbitrary: A)
  case Nil
  then show ?case by simp
next
  case (Cons a d)
  show ?case
  proof (cases "P a")
    case False
    with Cons.prems have f: "filter P d = A @ B" by simp
    have "x \<in> set (filter P (a # d))" using Cons.prems by simp
    with False have "a \<noteq> x" by auto
    with Cons.IH[OF f Cons.prems(2,3)] show ?thesis by (simp add: precedes_def)
  next
    case True
    with Cons.prems obtain A' where A: "A = a # A'" and f: "filter P d = A' @ B"
      by (cases A) auto
    show ?thesis
    proof (cases "a = x")
      case True
      have "y \<in> set (filter P d)" using f Cons.prems(3) by simp
      then show ?thesis using True by (simp add: precedes_def)
    next
      case False
      with A Cons.prems(2) have "x \<in> set A'" by simp
      from Cons.IH[OF f this Cons.prems(3)] False show ?thesis by (simp add: precedes_def)
    qed
  qed
qed

lemma sorted_take_drop_le:
  "x \<in> set (take k (sort_key f d)) \<Longrightarrow> y \<in> set (drop k (sort_key f d)) \<Longrightarrow> f x \<le> f y"
proof -
  assume x: "x \<in> set (take k (sort_key f d))" and y: "y \<in> set (drop k (sort_key f d))"
  have "sorted (map f (take k (sort_key f d)) @ map f (drop k (sort_key f d)))"
    by (metis append_take_drop_id map_append sorted_sort_key)
  then show ?thesis using x y by (auto simp: sorted_append)
qed

lemma stable_take_drop_precedes:
  assumes x: "x \<in> set (take k (sort_key f d))" and y: "y \<in> set (drop k (sort_key f d))"
    and eq: "f x = f y"
  shows "precedes d x y"
proof -
  let ?P = "\<lambda>z. f z = f y"
  have "filter ?P d = filter ?P (take k (sort_key f d) @ drop k (sort_key f d))"
    by (simp add: sort_key_stable)
  then have "filter ?P d = filter ?P (take k (sort_key f d)) @ filter ?P (drop k (sort_key f d))"
    by (simp only: filter_append)
  moreover have "x \<in> set (filter ?P (take k (sort_key f d)))" using x eq by simp
  moreover have "y \<in> set (filter ?P (drop k (sort_key f d)))" using y by simp
  ultimately show ?thesis by (rule filter_split_precedes)
qed

lemma total_size_unlink:
  "wf_dir d \<Longrightarrow> x \<in> set d \<Longrightarrow> total_size (unlink (fst x) d) = total_size d - int (st_size (snd x))"
proof (induction d)
  case Nil
  then show ?case by simp
next
  case (Cons a d)
  from Cons.prems(1) have fresh: "\<forall>e\<in>set d. fst e \<noteq> fst a"
    unfolding wf_dir_def by (metis distinct.simps(2) image_eqI list.simps(9) set_map)
  show ?case
  proof (cases "x = a")
    case True
    from fresh have "filter (\<lambda>e. fst e \<noteq> fst a) d = d" by (simp add: filter_id_conv)
    with True show ?thesis by (simp add: unlink_def total_size_def)
  next
    case False
    with Cons.prems have xd: "x \<in> set d" and wf: "wf_dir d" by (auto simp: wf_dir_def)
    from fresh xd have "fst a \<noteq> fst x" by auto
    with Cons.IH[OF wf xd] show ?thesis by (simp add: unlink_def total_size_def)
  qed
qed

lemma evict_loop_quota:
  "wf_dir (local_files w) \<Longrightarrow> distinct fs \<Longrightarrow> set fs = set (local_files w) \<Longrightarrow>
   tot = total_size (local_files w) \<Longrightarrow> 0 \<le> mx \<Longrightarrow>
   real_of_int (total_size (local_files (evict_loop mx tot fs w))) \<le> mx"
proof (induction fs arbitrary: tot w)
  case Nil
  then show ?case by (simp add: total_size_def)
next
  case (Cons oldest files)
  show ?case
  proof (cases "real_of_int tot > mx")
    case False
    with Cons.prems show ?thesis by simp
  next
    case True
    let ?w = "logged (Info_evicted (fst oldest) (st_size (snd oldest)))
                (w\<lparr>local_files := unlink (fst oldest) (local_files w)\<rparr>)"
    from Cons.prems have mem: "oldest \<in> set (local_files w)" by auto
    have lf: "local_files ?w = unlink (fst oldest) (local_files w)" by (simp add: logged_def)
    have 1: "wf_dir (local_files ?w)" using Cons.prems(1) by (simp add: lf wf_dir_unlink)
    have 2: "distinct files" using Cons.prems(2) by simp
    have 3: "set files = set (local_files ?w)"
      using Cons.prems(1,2,3) mem by (auto simp: lf set_unlink)
    have 4: "tot - int (st_size (snd oldest)) = total_size (local_files ?w)"
      using Cons.prems(1,4) mem by (simp add: lf total_size_unlink)
    from Cons.IH[OF 1 2 3 4 Cons.prems(5)] True show ?thesis by (simp add: Let_def)
  qed
qed

lemma lookup_unique:
  "wf_dir d \<Longrightarrow> en \<in> set d \<Longrightarrow> lookup d (fst en) = Some (snd en)"
  by (simp add: wf_dir_def lookup_def)

lemma names_replace: "map (fst \<circ> (\<lambda>e. if fst e = n then (n, f) else e)) d = map fst d"
  by (induction d) auto

lemma wf_dir_write_file: "wf_dir d \<Longrightarrow> wf_dir (write_file pos n f d)"
proof (cases "exists d n")
  case True
  assume "wf_dir d"
  then show ?thesis using True by (simp add: wf_dir_def write_file_def names_replace)
next
  case False
  assume wf: "wf_dir d"
  from wf have "distinct (map fst (take pos d) @ map fst (drop pos d))"
    unfolding wf_dir_def by (metis append_take_drop_id map_append)
  moreover from False have "n \<notin> fst ` set (take pos d)" "n \<notin> fst ` set (drop pos d)"
    by (auto simp: exists_iff dest: in_set_takeD in_set_dropD)
  ultimately show ?thesis using False by (auto simp: wf_dir_def write_file_def)
qed

lemma map_of_replace:
  "map_of (map (\<lambda>e. if fst e = n then (n, f) else e) d) m =
     (if m = n then map_option (\<lambda>_. f) (map_of d n) else map_of d m)"
  by (induction d) auto

lemma lookup_write_file: "lookup (write_file pos n f d) m = (if m = n then Some f else lookup d m)"
proof (cases "exists d n")
  case True
  then show ?thesis by (auto simp add: write_file_def lookup_def exists_def map_of_replace)
next
  case False
  then have nd: "map_of d n = None" by (simp add: exists_def lookup_def)
  then have nt: "map_of (take pos d) n = None" "map_of (drop pos d) n = None"
    by (auto simp: map_of_eq_None_iff dest: in_set_takeD in_set_dropD)
  have "map_of d m = map_of (take pos d @ drop pos d) m" by simp
  also have "\<dots> = (map_of (drop pos d) ++ map_of (take pos d)) m" by (simp only: map_of_append)
  finally have split: "map_of d m = (map_of (drop pos d) ++ map_of (take pos d)) m" .
  have "map_of (take pos d @ (n, f) # drop pos d) m = (if m = n then Some f else map_of d m)"
    using nt by (simp add: split map_add_def split: option.splits)
  with False show ?thesis by (simp add: write_file_def lookup_def)
qed

lemma exists_write_file: "exists (write_file pos n f d) m \<longleftrightarrow> m = n \<or> exists d m"
  by (simp add: exists_def lookup_write_file)

lemma total_size_append: "total_size (xs @ ys) = total_size xs + total_size ys"
  by (simp add: total_size_def)

lemma total_size_create:
  "\<not> exists d n \<Longrightarrow> total_size (write_file pos n f d) = total_size d + int (st_size f)"
proof -
  assume "\<not> exists d n"
  then have "total_size (write_file pos n f d) =
      total_size (take pos d) + int (st_size f) + total_size (drop pos d)"
    by (simp add: write_file_def total_size_def)
  also have "\<dots> = total_size (take pos d @ drop pos d) + int (st_size f)"
    by (simp only: total_size_append)
  finally show ?thesis by simp
qed

section \<open>The branches of \<open>get_db_path\<close>\<close>

lemma touch_existing:
  assumes wf: "wf_dir (local_files w)" and ex: "exists (local_files w) n"
  shows "local_files (touch e n w) =
           map (\<lambda>en. if fst en = n then (fst en, (snd en)\<lparr>st_atime := now e, st_mtime := now e\<rparr>) else en)
             (local_files w)"
    and "calls (touch e n w) = calls w" and "logs (touch e n w) = logs w"
proof -
  from ex obtain f where f: "lookup (local_files w) n = Some f" by (auto simp: exists_def)
  have same: "snd en = f" if "en \<in> set (local_files w)" "fst en = n" for en
    using lookup_unique[OF wf that(1)] that(2) f by simp
  have "map (\<lambda>en. if fst en = n then (n, f\<lparr>st_atime := now e, st_mtime := now e\<rparr>) else en) (local_files w)
      = map (\<lambda>en. if fst en = n then (fst en, (snd en)\<lparr>st_atime := now e, st_mtime := now e\<rparr>) else en) (local_files w)"
    by (rule map_cong) (auto simp: same)
  then show "local_files (touch e n w) =
           map (\<lambda>en. if fst en = n then (fst en, (snd en)\<lparr>st_atime := now e, st_mtime := now e\<rparr>) else en)
             (local_files w)"
    using f ex by (simp add: touch_def store_def write_file_def)
  show "calls (touch e n w) = calls w" "logs (touch e n w) = logs w"
    using f by (simp_all add: touch_def store_def)
qed

lemma get_db_path_hit:
  "exists (local_files w) (file_name (upper state)) \<Longrightarrow>
   get_db_path cfg e state w =
     (Inr (local_path cfg (upper state)),
      touch e (file_name (upper state)) (logged (Debug_cache_hit_local (upper state)) w))"
  by (simp add: get_db_path_def Let_def)

lemma get_db_path_s3_hit:
  "\<not> exists (local_files w) (file_name (upper state)) \<Longrightarrow> truthy (s3_bucket cfg) \<Longrightarrow>
   s3_download e = Downloaded f \<Longrightarrow>
   get_db_path cfg e state w =
     (Inr (local_path cfg (upper state)),
      enforce_cache_limit cfg (logged (Info_cache_hit_s3 (upper state))
        (store e (file_name (upper state)) f
           (called (S3_download_file (s3_key cfg (upper state))) w))))"
  by (simp add: get_db_path_def Let_def download_from_s3_def has_s3_def)

lemma get_db_path_origin:
  assumes "\<not> exists (local_files w) (file_name (upper state))"
    and "\<not> (truthy (s3_bucket cfg) \<and> (\<exists>f. s3_download e = Downloaded f))"
  shows "get_db_path cfg e state w =
     (case download_from_fia cfg e (upper state)
             (logged (Info_cache_miss (upper state)) (after_s3_miss cfg e (upper state) w)) of
        (Inl err, w2) \<Rightarrow> (Inl err, w2)
      | (Inr u, w2) \<Rightarrow>
          (Inr (local_path cfg (upper state)),
           if truthy (s3_bucket cfg)
           then snd (upload_to_s3 cfg e (upper state) (enforce_cache_limit cfg w2))
           else enforce_cache_limit cfg w2))"
proof (cases "truthy (s3_bucket cfg)")
  case False
  with assms(1) show ?thesis
    by (simp add: get_db_path_def Let_def after_s3_miss_def split: prod.split sum.split)
next
  case True
  with assms(2) have "fst (download_from_s3 cfg e (upper state) w) = False"
    by (cases "s3_download e") (simp_all add: download_from_s3_def has_s3_def Let_def)
  with True assms(1) show ?thesis
    by (simp add: get_db_path_def Let_def after_s3_miss_def split_beta split: prod.split sum.split)
qed

lemma local_files_upload: "local_files (snd (upload_to_s3 cfg e state w)) = local_files w"
  by (simp add: upload_to_s3_def Let_def called_def logged_def split: s3_upload_result.split)

lemma calls_enforce: "calls (enforce_cache_limit cfg w) = calls w"
proof -
  have "calls (evict_loop mx tot fs w) = calls w" for mx tot fs w
    by (induction fs arbitrary: tot w) (simp_all add: Let_def logged_def)
  then show ?thesis by (simp add: enforce_cache_limit_def Let_def)
qed

lemma enforce_within_quota:
  "real_of_int (total_size (local_files w)) \<le> max_local_bytes cfg \<Longrightarrow> enforce_cache_limit cfg w = w"
  by (simp add: enforce_cache_limit_def Let_def)

lemma after_s3_miss_calls:
  "calls (after_s3_miss cfg e state w) =
     calls w @ (if truthy (s3_bucket cfg) then [S3_download_file (s3_key cfg state)] else [])"
  by (simp add: after_s3_miss_def download_from_s3_def has_s3_def Let_def called_def logged_def
      store_def split: s3_download_result.split option.split)

lemma origin_store_files:
  assumes "\<not> exists (local_files w) (file_name state)"
    and "\<not> (truthy (s3_bucket cfg) \<and> (\<exists>g. s3_download e = Downloaded g))"
    and "pyfia_download e = Fetched f"
  shows "download_from_fia cfg e state (logged l (after_s3_miss cfg e state w)) = (Inr (), w2) \<Longrightarrow>
         local_files w2 = write_file (new_pos e) (file_name state) f (local_files w)"
    and "\<exists>w2. download_from_fia cfg e state (logged l (after_s3_miss cfg e state w)) = (Inr (), w2)
           \<and> calls w2 = calls (after_s3_miss cfg e state w) @ [Pyfia_download state]"
proof -
  have "local_files (after_s3_miss cfg e state w) = local_files w"
    using assms(2)
    by (cases "s3_download e")
       (auto simp: after_s3_miss_def download_from_s3_def has_s3_def Let_def called_def logged_def)
  then show "download_from_fia cfg e state (logged l (after_s3_miss cfg e state w)) = (Inr (), w2) \<Longrightarrow>
         local_files w2 = write_file (new_pos e) (file_name state) f (local_files w)"
    using assms(3) by (auto simp: download_from_fia_def Let_def called_def logged_def store_def)
  show "\<exists>w2. download_from_fia cfg e state (logged l (after_s3_miss cfg e state w)) = (Inr (), w2)
           \<and> calls w2 = calls (after_s3_miss cfg e state w) @ [Pyfia_download state]"
    using assms(3) by (simp add: download_from_fia_def Let_def called_def logged_def store_def)
qed

lemma get_db_path_origin_failure:
  assumes "\<not> exists (local_files w) (file_name (upper state))"
    and "\<not> (truthy (s3_bucket cfg) \<and> (\<exists>g. s3_download e = Downloaded g))"
    and "pyfia_download e = Fetch_failed msg"
  shows "get_db_path cfg e state w =
     (Inl (Download_error msg),
      called (Pyfia_download (upper state))
        (logged (Info_cache_miss (upper state)) (after_s3_miss cfg e (upper state) w)))"
  using assms(3) by (simp add: get_db_path_origin[OF assms(1,2)] download_from_fia_def Let_def)

lemma calls_upload:
  "calls (snd (upload_to_s3 cfg e state w)) =
     calls w @ (if has_s3 cfg then [S3_upload_file (s3_key cfg state)] else [])"
  by (simp add: upload_to_s3_def Let_def called_def logged_def split: s3_upload_result.split)

lemma s3_hit_facts:
  assumes miss: "\<not> exists (local_files w) (file_name (upper state))"
    and s3: "truthy (s3_bucket cfg)" and dl: "s3_download e = Downloaded g"
  shows "fst (get_db_path cfg e state w) = Inr (local_path cfg (upper state))"
    and "calls (snd (get_db_path cfg e state w)) =
           calls w @ [S3_download_file (s3_key cfg (upper state))]"
    and "real_of_int (total_size (local_files w) + int (st_size g)) \<le> max_local_bytes cfg \<Longrightarrow>
         local_files (snd (get_db_path cfg e state w)) =
           write_file (new_pos e) (file_name (upper state)) g (local_files w)"
proof -
  let ?pre = "logged (Info_cache_hit_s3 (upper state))
        (store e (file_name (upper state)) g
           (called (S3_download_file (s3_key cfg (upper state))) w))"
  note eq = get_db_path_s3_hit[OF miss s3 dl]
  show "fst (get_db_path cfg e state w) = Inr (local_path cfg (upper state))" by (simp add: eq)
  show "calls (snd (get_db_path cfg e state w)) =
           calls w @ [S3_download_file (s3_key cfg (upper state))]"
    by (simp add: eq calls_enforce logged_def store_def called_def)
  assume fits: "real_of_int (total_size (local_files w) + int (st_size g)) \<le> max_local_bytes cfg"
  have lf: "local_files ?pre = write_file (new_pos e) (file_name (upper state)) g (local_files w)"
    by (simp add: logged_def store_def called_def)
  then have "real_of_int (total_size (local_files ?pre)) \<le> max_local_bytes cfg"
    using fits miss by (simp add: total_size_create)
  then have "enforce_cache_limit cfg ?pre = ?pre" by (rule enforce_within_quota)
  then show "local_files (snd (get_db_path cfg e state w)) =
           write_file (new_pos e) (file_name (upper state)) g (local_files w)"
    using lf by (simp add: eq)
qed

lemma origin_ok_facts:
  assumes miss: "\<not> exists (local_files w) (file_name (upper state))"
    and nohit: "\<not> (truthy (s3_bucket cfg) \<and> (\<exists>g. s3_download e = Downloaded g))"
    and ok: "pyfia_download e = Fetched f"
  shows "fst (get_db_path cfg e state w) = Inr (local_path cfg (upper state))"
    and "calls (snd (get_db_path cfg e state w)) =
           calls w @ (if truthy (s3_bucket cfg) then [S3_download_file (s3_key cfg (upper state))] else [])
             @ [Pyfia_download (upper state)]
             @ (if truthy (s3_bucket cfg) then [S3_upload_file (s3_key cfg (upper state))] else [])"
    and "real_of_int (total_size (local_files w) + int (st_size f)) \<le> max_local_bytes cfg \<Longrightarrow>
         local_files (snd (get_db_path cfg e state w)) =
           write_file (new_pos e) (file_name (upper state)) f (local_files w)"
proof -
  let ?l = "Info_cache_miss (upper state)"
  from origin_store_files(2)[OF miss nohit ok, of ?l]
  obtain w2 where run: "download_from_fia cfg e (upper state)
        (logged ?l (after_s3_miss cfg e (upper state) w)) = (Inr (), w2)"
    and c2: "calls w2 = calls (after_s3_miss cfg e (upper state) w) @ [Pyfia_download (upper state)]"
    by blast
  from origin_store_files(1)[OF miss nohit ok run]
  have lf2: "local_files w2 = write_file (new_pos e) (file_name (upper state)) f (local_files w)" .
  have eq: "get_db_path cfg e state w =
      (Inr (local_path cfg (upper state)),
       if truthy (s3_bucket cfg)
       then snd (upload_to_s3 cfg e (upper state) (enforce_cache_limit cfg w2))
       else enforce_cache_limit cfg w2)"
    by (simp add: get_db_path_origin[OF miss nohit] run)
  show "fst (get_db_path cfg e state w) = Inr (local_path cfg (upper state))" by (simp add: eq)
  show "calls (snd (get_db_path cfg e state w)) =
           calls w @ (if truthy (s3_bucket cfg) then [S3_download_file (s3_key cfg (upper state))] else [])
             @ [Pyfia_download (upper state)]
             @ (if truthy (s3_bucket cfg) then [S3_upload_file (s3_key cfg (upper state))] else [])"
    by (simp add: eq calls_upload calls_enforce c2 after_s3_miss_calls has_s3_def)
  assume fits: "real_of_int (total_size (local_files w) + int (st_size f)) \<le> max_local_bytes cfg"
  then have "real_of_int (total_size (local_files w2)) \<le> max_local_bytes cfg"
    using miss by (simp add: lf2 total_size_create)
  then have "enforce_cache_limit cfg w2 = w2" by (rule enforce_within_quota)
  then show "local_files (snd (get_db_path cfg e state w)) =
           write_file (new_pos e) (file_name (upper state)) f (local_files w)"
    by (simp add: eq local_files_upload lf2)
qed

lemma origin_failed_facts:
  assumes miss: "\<not> exists (local_files w) (file_name (upper state))"
    and nohit: "\<not> (truthy (s3_bucket cfg) \<and> (\<exists>g. s3_download e = Downloaded g))"
    and bad: "pyfia_download e = Fetch_failed msg"
  shows "fst (get_db_path cfg e state w) = Inl (Download_error msg)"
    and "calls (snd (get_db_path cfg e state w)) =
           calls w @ (if truthy (s3_bucket cfg) then [S3_download_file (s3_key cfg (upper state))] else [])
             @ [Pyfia_download (upper state)]"
    and "local_files (snd (get_db_path cfg e state w)) = local_files w"
proof -
  note eq = get_db_path_origin_failure[OF miss nohit bad]
  show "fst (get_db_path cfg e state w) = Inl (Download_error msg)" by (simp add: eq)
  show "calls (snd (get_db_path cfg e state w)) =
           calls w @ (if truthy (s3_bucket cfg) then [S3_download_file (s3_key cfg (upper state))] else [])
             @ [Pyfia_download (upper state)]"
    by (simp add: eq called_def logged_def after_s3_miss_calls)
  show "local_files (snd (get_db_path cfg e state w)) = local_files w"
    using nohit
    by (cases "s3_download e")
       (auto simp: eq called_def logged_def after_s3_miss_def download_from_s3_def has_s3_def Let_def)
qed

lemma calls_touch: "calls (touch e n w) = calls w"
  by (simp add: touch_def store_def split: option.split)

lemma population_result:
  assumes miss: "\<not> exists (local_files w) (file_name (upper state))"
    and delivered: "truthy (s3_bucket cfg) \<and> s3_download e = Downloaded f \<or>
        \<not> (truthy (s3_bucket cfg) \<and> (\<exists>g. s3_download e = Downloaded g)) \<and>
          pyfia_download e = Fetched f"
  shows "\<exists>pre. local_files pre = write_file (new_pos e) (file_name (upper state)) f (local_files w) \<and>
           local_files (snd (get_db_path cfg e state w)) = local_files (enforce_cache_limit cfg pre)"
proof (cases "truthy (s3_bucket cfg) \<and> (\<exists>g. s3_download e = Downloaded g)")
  case True
  with delivered have s3: "truthy (s3_bucket cfg)" and dl: "s3_download e = Downloaded f" by auto
  let ?pre = "logged (Info_cache_hit_s3 (upper state))
        (store e (file_name (upper state)) f
           (called (S3_download_file (s3_key cfg (upper state))) w))"
  have "local_files ?pre = write_file (new_pos e) (file_name (upper state)) f (local_files w)"
    by (simp add: logged_def store_def called_def)
  moreover have "local_files (snd (get_db_path cfg e state w)) =
      local_files (enforce_cache_limit cfg ?pre)"
    by (simp add: get_db_path_s3_hit[OF miss s3 dl])
  ultimately show ?thesis by blast
next
  case False
  with delivered have ok: "pyfia_download e = Fetched f" by auto
  let ?l = "Info_cache_miss (upper state)"
  from origin_store_files(2)[OF miss False ok, of ?l]
  obtain w2 where run: "download_from_fia cfg e (upper state)
      (logged ?l (after_s3_miss cfg e (upper state) w)) = (Inr (), w2)"
    by blast
  from origin_store_files(1)[OF miss False ok run]
  have "local_files w2 = write_file (new_pos e) (file_name (upper state)) f (local_files w)" .
  moreover have "local_files (snd (get_db_path cfg e state w)) =
      local_files (enforce_cache_limit cfg w2)"
    by (simp add: get_db_path_origin[OF miss False] run local_files_upload)
  ultimately show ?thesis by blast
qed

lemma populating_call_runs_pass:
  assumes miss: "\<not> exists (local_files w) (file_name (upper state))"
    and ok: "fst (get_db_path cfg e state w) = Inr p"
  shows "\<exists>pre f. local_files pre = write_file (new_pos e) (file_name (upper state)) f (local_files w) \<and>
           local_files (snd (get_db_path cfg e state w)) = local_files (enforce_cache_limit cfg pre)"
proof (cases "truthy (s3_bucket cfg) \<and> (\<exists>g. s3_download e = Downloaded g)")
  case True
  then obtain g where "truthy (s3_bucket cfg) \<and> s3_download e = Downloaded g" by blast
  from population_result[OF miss disjI1[OF this]] show ?thesis by blast
next
  case False
  show ?thesis
  proof (cases "pyfia_download e")
    case (Fetch_failed msg)
    from origin_failed_facts(1)[OF miss False Fetch_failed] ok show ?thesis by simp
  next
    case (Fetched f)
    with False have "\<not> (truthy (s3_bucket cfg) \<and> (\<exists>g. s3_download e = Downloaded g)) \<and>
          pyfia_download e = Fetched f" by simp
    from population_result[OF miss disjI2[OF this]] show ?thesis by blast
  qed
qed

lemma enforce_quota:
  assumes "wf_dir (local_files w)" and "0 \<le> max_local_bytes cfg"
  shows "real_of_int (total_size (local_files (enforce_cache_limit cfg w))) \<le> max_local_bytes cfg"
proof (cases "real_of_int (total_size (local_files w)) \<le> max_local_bytes cfg")
  case True
  then show ?thesis by (simp add: enforce_cache_limit_def)
next
  case False
  have "distinct (sort_key (\<lambda>f. st_atime (snd f)) (local_files w))"
    using assms(1) by (simp add: wf_dir_distinct)
  with assms False show ?thesis
    by (simp add: enforce_cache_limit_def Let_def evict_loop_quota)
qed

lemma second_resolve_is_local:
  assumes miss: "\<not> exists (local_files w) (file_name (upper state))"
    and ok: "fst (get_db_path cfg e state w) = Inr p"
    and kept: "exists (local_files (snd (get_db_path cfg e state w))) (file_name (upper state))"
  shows "fst (get_db_path cfg e' state (snd (get_db_path cfg e state w))) = Inr p"
    and "calls (snd (get_db_path cfg e' state (snd (get_db_path cfg e state w)))) =
         calls (snd (get_db_path cfg e state w))"
proof -
  have p: "p = local_path cfg (upper state)"
  proof (cases "truthy (s3_bucket cfg) \<and> (\<exists>g. s3_download e = Downloaded g)")
    case True
    then show ?thesis using s3_hit_facts(1)[OF miss] ok by auto
  next
    case False
    show ?thesis
    proof (cases "pyfia_download e")
      case (Fetched f)
      from origin_ok_facts(1)[OF miss False Fetched] ok show ?thesis by simp
    next
      case (Fetch_failed msg)
      from origin_failed_facts(1)[OF miss False Fetch_failed] ok show ?thesis by simp
    qed
  qed
  show "fst (get_db_path cfg e' state (snd (get_db_path cfg e state w))) = Inr p"
    by (simp add: get_db_path_hit[OF kept] p)
  show "calls (snd (get_db_path cfg e' state (snd (get_db_path cfg e state w)))) =
         calls (snd (get_db_path cfg e state w))"
    by (simp add: get_db_path_hit[OF kept] calls_touch logged_def)
qed

lemma total_size_Cons: "total_size (x # xs) = int (st_size (snd x)) + total_size xs"
  by (simp add: total_size_def)

lemma total_size_nonneg: "0 \<le> total_size d"
  by (induction d) (simp_all add: total_size_def)

lemma total_size_insort: "total_size (insort_key g x xs) = int (st_size (snd x)) + total_size xs"
  by (induction xs) (simp_all add: total_size_def)

lemma total_size_sort_key: "total_size (sort_key g xs) = total_size xs"
  by (induction xs) (simp_all add: total_size_insort total_size_Cons)

lemma evict_loop_prefix:
  "\<exists>k\<le>length fs.
      local_files (evict_loop mx (total_size fs) fs w) =
        filter (\<lambda>e. fst e \<notin> fst ` set (take k fs)) (local_files w) \<and>
      (\<forall>j<k. mx < real_of_int (total_size (drop j fs))) \<and>
      (k < length fs \<longrightarrow> real_of_int (total_size (drop k fs)) \<le> mx)"
proof (induction fs arbitrary: w)
  case Nil
  show ?case by simp
next
  case (Cons oldest files)
  show ?case
  proof (cases "real_of_int (total_size (oldest # files)) > mx")
    case False
    then have "local_files (evict_loop mx (total_size (oldest # files)) (oldest # files) w) =
        filter (\<lambda>e. fst e \<notin> fst ` set (take 0 (oldest # files))) (local_files w) \<and>
      (\<forall>j<0. mx < real_of_int (total_size (drop j (oldest # files)))) \<and>
      (0 < length (oldest # files) \<longrightarrow> real_of_int (total_size (drop 0 (oldest # files))) \<le> mx)"
      by simp
    then show ?thesis by blast
  next
    case True
    let ?w = "logged (Info_evicted (fst oldest) (st_size (snd oldest)))
                (w\<lparr>local_files := unlink (fst oldest) (local_files w)\<rparr>)"
    from Cons.IH[of ?w]
    obtain k where k: "k \<le> length files"
      and eq: "local_files (evict_loop mx (total_size files) files ?w) =
               filter (\<lambda>e. fst e \<notin> fst ` set (take k files)) (local_files ?w)"
      and over: "\<forall>j<k. mx < real_of_int (total_size (drop j files))"
      and stop: "k < length files \<longrightarrow> real_of_int (total_size (drop k files)) \<le> mx"
      by blast
    have tot: "total_size (oldest # files) - int (st_size (snd oldest)) = total_size files"
      by (simp add: total_size_Cons)
    have 1: "local_files (evict_loop mx (total_size (oldest # files)) (oldest # files) w) =
          filter (\<lambda>e. fst e \<notin> fst ` set (take (Suc k) (oldest # files))) (local_files w)"
      using True eq by (auto simp: Let_def tot logged_def unlink_def intro: filter_cong)
    have 2: "\<forall>j<Suc k. mx < real_of_int (total_size (drop j (oldest # files)))"
    proof (intro allI impI)
      fix j assume "j < Suc k"
      then show "mx < real_of_int (total_size (drop j (oldest # files)))"
        using True over by (cases j) auto
    qed
    have 3: "Suc k < length (oldest # files) \<longrightarrow>
             real_of_int (total_size (drop (Suc k) (oldest # files))) \<le> mx"
      using stop by simp
    have "Suc k \<le> length (oldest # files)" using k by simp
    with 1 2 3 show ?thesis by blast
  qed
qed

lemma enforce_prefix:
  "\<exists>k\<le>length (local_files w).
      local_files (enforce_cache_limit cfg w) =
        filter (\<lambda>e. fst e \<notin> fst ` set (take k (sort_key (\<lambda>f. st_atime (snd f)) (local_files w))))
          (local_files w) \<and>
      (\<forall>j<k. max_local_bytes cfg <
          real_of_int (total_size (drop j (sort_key (\<lambda>f. st_atime (snd f)) (local_files w))))) \<and>
      (k < length (local_files w) \<longrightarrow>
          real_of_int (total_size (drop k (sort_key (\<lambda>f. st_atime (snd f)) (local_files w))))
            \<le> max_local_bytes cfg)"
proof (cases "real_of_int (total_size (local_files w)) \<le> max_local_bytes cfg")
  case True
  let ?sorted = "sort_key (\<lambda>f. st_atime (snd f)) (local_files w)"
  have "local_files (enforce_cache_limit cfg w) =
        filter (\<lambda>e. fst e \<notin> fst ` set (take 0 ?sorted)) (local_files w) \<and>
      (\<forall>j<0. max_local_bytes cfg < real_of_int (total_size (drop j ?sorted))) \<and>
      (0 < length (local_files w) \<longrightarrow>
          real_of_int (total_size (drop 0 ?sorted)) \<le> max_local_bytes cfg)"
    using True by (simp add: enforce_cache_limit_def total_size_sort_key)
  then show ?thesis by blast
next
  case False
  let ?sorted = "sort_key (\<lambda>f. st_atime (snd f)) (local_files w)"
  have run: "local_files (enforce_cache_limit cfg w) =
      local_files (evict_loop (max_local_bytes cfg) (total_size ?sorted) ?sorted w)"
    using False by (simp add: enforce_cache_limit_def Let_def total_size_sort_key)
  from evict_loop_prefix[of ?sorted "max_local_bytes cfg" w] show ?thesis
    unfolding run by simp
qed

lemma newest_sorted_last:
  assumes x: "x \<in> set xs" and d: "distinct xs"
    and newest: "\<forall>y\<in>set xs. y \<noteq> x \<longrightarrow> g y < g x"
  shows "sort_key g xs = butlast (sort_key g xs) @ [x]"
proof -
  let ?l = "sort_key g xs"
  from x have ne: "?l \<noteq> []" by (metis empty_iff empty_set set_sort)
  then have split: "?l = butlast ?l @ [last ?l]" by simp
  have "last ?l = x"
  proof (rule ccontr)
    assume neq: "last ?l \<noteq> x"
    from ne have "last ?l \<in> set xs" using last_in_set[OF ne] by simp
    with newest neq have lt: "g (last ?l) < g x" by blast
    from x have "x \<in> set ?l" by simp
    with split neq have xin: "x \<in> set (butlast ?l)"
      by (metis Un_iff empty_iff empty_set set_ConsD set_append)
    have "sorted (map g (butlast ?l) @ [g (last ?l)])"
      using sorted_sort_key[of g xs] split by (metis list.simps(8,9) map_append)
    with xin have "g x \<le> g (last ?l)" by (auto simp: sorted_append)
    with lt show False by simp
  qed
  with split show ?thesis by simp
qed

lemma set_write_file_new:
  "\<not> exists d n \<Longrightarrow> set (write_file pos n f d) = insert (n, f) (set d)"
proof -
  assume "\<not> exists d n"
  moreover have "set (take pos d) \<union> set (drop pos d) = set d"
    by (metis append_take_drop_id set_append)
  ultimately show ?thesis by (auto simp: write_file_def)
qed


lemma enforce_keeps_newest:
  assumes wf: "wf_dir (local_files w)"
    and x: "(n, f) \<in> set (local_files w)"
    and small: "real (st_size f) \<le> max_local_bytes cfg"
    and newest: "\<forall>y\<in>set (local_files w). y \<noteq> (n, f) \<longrightarrow> st_atime (snd y) < st_atime f"
  shows "(n, f) \<in> set (local_files (enforce_cache_limit cfg w))"
proof -
  let ?g = "\<lambda>e. st_atime (snd e)"
  let ?sorted = "sort_key ?g (local_files w)"
  from enforce_prefix[of w cfg] obtain k where k: "k \<le> length (local_files w)"
    and after: "local_files (enforce_cache_limit cfg w) =
        filter (\<lambda>e. fst e \<notin> fst ` set (take k ?sorted)) (local_files w)"
    and over: "\<forall>j<k. max_local_bytes cfg < real_of_int (total_size (drop j ?sorted))"
    by blast
  have dist: "distinct (local_files w)" using wf by (rule wf_dir_distinct)
  have last: "?sorted = butlast ?sorted @ [(n, f)]"
    using newest_sorted_last[OF x dist, of ?g] newest by simp
  have len: "length ?sorted = length (local_files w)" by simp
  have pos: "0 < length (local_files w)" using x by (cases "local_files w") auto
  have dropl: "drop (length (local_files w) - 1) ?sorted = [(n, f)]"
  proof -
    have "drop (length (butlast ?sorted)) (butlast ?sorted @ [(n, f)]) = [(n, f)]" by simp
    then show ?thesis using last by (simp add: len)
  qed
  have klt: "k < length (local_files w)"
  proof (rule ccontr)
    assume "\<not> k < length (local_files w)"
    with k pos have "length (local_files w) - 1 < k" by simp
    with over have "max_local_bytes cfg <
        real_of_int (total_size (drop (length (local_files w) - 1) ?sorted))" by blast
    then have "max_local_bytes cfg < real_of_int (total_size [(n, f)])" by (simp only: dropl)
    with small show False by (simp add: total_size_def)
  qed
  have "(n, f) \<notin> set (take k ?sorted)"
  proof
    assume "(n, f) \<in> set (take k ?sorted)"
    moreover have "take k ?sorted = take k (butlast ?sorted)"
      using klt last by (metis (no_types, lifting) len length_butlast Suc_pred less_Suc_eq_le pos
          take_butlast not_less take_all take_append append_Nil2 diff_is_0_eq' take0
          butlast_snoc length_append_singleton)
    ultimately have "(n, f) \<in> set (butlast ?sorted)" by (auto dest: in_set_takeD)
    moreover have "distinct (butlast ?sorted @ [(n, f)])" using dist last by (metis distinct_sort)
    ultimately show False by simp
  qed
  then have "n \<notin> fst ` set (take k ?sorted)"
  proof (rule contrapos_nn)
    assume "n \<in> fst ` set (take k ?sorted)"
    then obtain y where y: "y \<in> set (take k ?sorted)" and "fst y = n" by auto
    moreover from y have "y \<in> set (local_files w)" by (auto dest: in_set_takeD)
    ultimately have "y = (n, f)" using wf_dir_key[OF wf _ x] by simp
    with y show "(n, f) \<in> set (take k ?sorted)" by simp
  qed
  with x show ?thesis by (simp add: after)
qed

lemma enforce_one:
  assumes sorted: "sort_key (\<lambda>f. st_atime (snd f)) (local_files w) = oldest # rest"
    and over: "max_local_bytes cfg < real_of_int (total_size (local_files w))"
    and fits: "real_of_int (total_size (local_files w) - int (st_size (snd oldest))) \<le> max_local_bytes cfg"
  shows "local_files (enforce_cache_limit cfg w) = unlink (fst oldest) (local_files w)"
proof -
  have "local_files (evict_loop (max_local_bytes cfg)
          (total_size (local_files w) - int (st_size (snd oldest))) rest w') = local_files w'" for w'
    using fits by (cases rest) simp_all
  then show ?thesis using over sorted
    by (simp add: enforce_cache_limit_def Let_def logged_def)
qed

lemma wf_dir_enforce: "wf_dir (local_files w) \<Longrightarrow> wf_dir (local_files (enforce_cache_limit cfg w))"
proof -
  assume wf: "wf_dir (local_files w)"
  from enforce_prefix[of w cfg] obtain k where
    "local_files (enforce_cache_limit cfg w) =
       filter (\<lambda>e. fst e \<notin> fst ` set (take k (sort_key (\<lambda>f. st_atime (snd f)) (local_files w))))
         (local_files w)"
    by blast
  with wf show ?thesis by (simp add: wf_dir_def distinct_map_filter)
qed

lemma evicted_older_than_kept:
  assumes wf: "wf_dir (local_files w)"
    and x: "x \<in> set (local_files w)"
    and gone: "\<not> exists (local_files (enforce_cache_limit cfg w)) (fst x)"
    and s: "s \<in> set (local_files (enforce_cache_limit cfg w))"
  shows "max_local_bytes cfg < real_of_int (total_size (local_files w)) \<and>
         st_atime (snd x) \<le> st_atime (snd s) \<and>
         (st_atime (snd x) = st_atime (snd s) \<longrightarrow> precedes (local_files w) x s)"
proof -
  let ?f = "\<lambda>e. st_atime (snd e)"
  let ?sorted = "sort_key ?f (local_files w)"
  have over: "max_local_bytes cfg < real_of_int (total_size (local_files w))"
  proof (rule ccontr)
    assume "\<not> ?thesis"
    then have "enforce_cache_limit cfg w = w" by (simp add: enforce_cache_limit_def Let_def)
    with gone x show False by (auto simp: exists_iff)
  qed
  then have run: "local_files (enforce_cache_limit cfg w) =
      local_files (evict_loop (max_local_bytes cfg) (total_size (local_files w)) ?sorted w)"
    by (simp add: enforce_cache_limit_def Let_def)
  from evict_loop_files[of ?sorted "max_local_bytes cfg" "total_size (local_files w)" w]
  obtain k where after: "local_files (enforce_cache_limit cfg w) =
      filter (\<lambda>e. fst e \<notin> fst ` set (take k ?sorted)) (local_files w)"
    unfolding run by blast
  have "fst x \<in> fst ` set (take k ?sorted)"
    using gone x by (auto simp: after exists_iff)
  then obtain x' where x': "x' \<in> set (take k ?sorted)" and "fst x' = fst x" by auto
  moreover from x' have "x' \<in> set (local_files w)" by (auto dest: in_set_takeD)
  ultimately have "x' = x" using wf x by (auto dest: wf_dir_key)
  with x' have xt: "x \<in> set (take k ?sorted)" by simp
  from s have sw: "s \<in> set (local_files w)" and "fst s \<notin> fst ` set (take k ?sorted)"
    by (auto simp: after)
  then have "s \<notin> set (take k ?sorted)" by auto
  moreover from sw have "s \<in> set (take k ?sorted @ drop k ?sorted)" by simp
  ultimately have sd: "s \<in> set (drop k ?sorted)" by (simp only: set_append) blast
  from sorted_take_drop_le[OF xt sd] stable_take_drop_precedes[OF xt sd] over
  show ?thesis by blast
qed

section \<open>The claims\<close>

text \<open>
  C1. The claim: \<open>get_db_path\<close> asks the local directory, then S3, then the DataMart,
  stops at the first that has the file, and leaves the file in the local directory, so
  that the next call for the same key is served locally with no call to S3 or to the
  DataMart. The order of the tiers is as claimed (\<open>get_db_path_hit\<close>, \<open>s3_hit_facts\<close>,
  \<open>origin_ok_facts\<close>), and a second call makes no call to the outside when the first one
  left the file in place (\<open>second_resolve_is_local\<close>).
  But the eviction pass that follows the write does not spare the file just written: with
  a file of 5 bytes and a quota of 3 bytes, the file that S3 delivered is deleted before
  \<open>get_db_path\<close> returns its path, and the second call downloads it from S3 again.
\<close>

theorem oversized_s3_hit_is_fetched_again:
  "fst oversized_s3_first = Inr ''/data/fia/NC.duckdb'' \<and>
   calls (snd oversized_s3_first) = [S3_download_file ''fia-duckdb/NC.duckdb''] \<and>
   local_files (snd oversized_s3_first) = [] \<and>
   fst oversized_s3_second = Inr ''/data/fia/NC.duckdb'' \<and>
   calls (snd oversized_s3_second) =
     [S3_download_file ''fia-duckdb/NC.duckdb'', S3_download_file ''fia-duckdb/NC.duckdb'']"
  by code_simp



text \<open>
  C3. After any sequence of writes into the cache directory, once an eviction pass
  (\<open>_enforce_cache_limit\<close>) has completed, the sizes of the files left in the directory
  add up to at most \<open>max_local_bytes\<close>. The code pins nothing, so the bound holds without
  the exception for pinned entries. Every directory that a sequence of writes can produce
  holds a name once; the statement is about all of them. A quota is a size, so it is not
  negative. In \<open>get_db_path\<close> each write is followed by a pass before the path is
  returned, so a call that fetched the file and returned leaves the directory within the
  quota.
\<close>

theorem quota_after_enforce:
  assumes wf: "wf_dir (local_files w)" and quota: "0 \<le> max_local_bytes cfg"
  shows "real_of_int (total_size (local_files (enforce_cache_limit cfg w))) \<le> max_local_bytes cfg \<and>
         (\<not> exists (local_files w) (file_name (upper state)) \<and>
          fst (get_db_path cfg e state w) = Inr p \<longrightarrow>
            real_of_int (total_size (local_files (snd (get_db_path cfg e state w))))
              \<le> max_local_bytes cfg)"
proof (intro conjI impI)
  show "real_of_int (total_size (local_files (enforce_cache_limit cfg w))) \<le> max_local_bytes cfg"
    using wf quota by (rule enforce_quota)
next
  assume "\<not> exists (local_files w) (file_name (upper state)) \<and>
          fst (get_db_path cfg e state w) = Inr p"
  then obtain pre f
    where pre: "local_files pre = write_file (new_pos e) (file_name (upper state)) f (local_files w)"
      and res: "local_files (snd (get_db_path cfg e state w)) =
                local_files (enforce_cache_limit cfg pre)"
    using populating_call_runs_pass by blast
  from wf have "wf_dir (local_files pre)" by (simp add: pre wf_dir_write_file)
  from enforce_quota[OF this quota] show
    "real_of_int (total_size (local_files (snd (get_db_path cfg e state w)))) \<le> max_local_bytes cfg"
    by (simp add: res)
qed

theorem quota_after_enforce_witness:
  "wf_dir (local_files (world_of
      [(''NC.duckdb'', new_file ''aaaa'' 1), (''GA.duckdb'', new_file ''bbb'' 2)])) \<and>
   0 \<le> max_local_bytes (example_cfg None 5) \<and>
   \<not> exists (local_files (world_of
      [(''NC.duckdb'', new_file ''aaaa'' 1), (''GA.duckdb'', new_file ''bbb'' 2)]))
      (file_name (upper ''va'')) \<and>
   fst (get_db_path (example_cfg None 5)
      (example_env 3 2 No_such_key (Fetched (new_file ''cc'' 3))) ''va''
      (world_of [(''NC.duckdb'', new_file ''aaaa'' 1), (''GA.duckdb'', new_file ''bbb'' 2)])) =
     Inr ''/data/fia/VA.duckdb'' \<and>
   real_of_int (total_size (local_files (enforce_cache_limit (example_cfg None 5) (world_of
      [(''NC.duckdb'', new_file ''aaaa'' 1), (''GA.duckdb'', new_file ''bbb'' 2)]))))
     \<le> max_local_bytes (example_cfg None 5) \<and>
   real_of_int (total_size (local_files (snd (get_db_path (example_cfg None 5)
      (example_env 3 2 No_such_key (Fetched (new_file ''cc'' 3))) ''va''
      (world_of [(''NC.duckdb'', new_file ''aaaa'' 1), (''GA.duckdb'', new_file ''bbb'' 2)])))))
     \<le> max_local_bytes (example_cfg None 5) \<and>
   map fst (local_files (snd (get_db_path (example_cfg None 5)
      (example_env 3 2 No_such_key (Fetched (new_file ''cc'' 3))) ''va''
      (world_of [(''NC.duckdb'', new_file ''aaaa'' 1), (''GA.duckdb'', new_file ''bbb'' 2)])))) =
     [''GA.duckdb'', ''VA.duckdb'']"
proof -
  let ?w = "world_of [(''NC.duckdb'', new_file ''aaaa'' 1), (''GA.duckdb'', new_file ''bbb'' 2)]"
  let ?cfg = "example_cfg None 5"
  let ?e = "example_env 3 2 No_such_key (Fetched (new_file ''cc'' 3))"
  have h1: "wf_dir (local_files ?w)" by (simp add: world_of_def wf_dir_def)
  have h2: "0 \<le> max_local_bytes ?cfg" by (simp add: example_cfg_def)
  have h3: "\<not> exists (local_files ?w) (file_name (upper ''va''))" by code_simp
  have h4: "fst (get_db_path ?cfg ?e ''va'' ?w) = Inr ''/data/fia/VA.duckdb''" by code_simp
  have h5: "map fst (local_files (snd (get_db_path ?cfg ?e ''va'' ?w))) =
     [''GA.duckdb'', ''VA.duckdb'']" by code_simp
  from quota_after_enforce[OF h1 h2, of "''va''" ?e "''/data/fia/VA.duckdb''"] h1 h2 h3 h4 h5
  show ?thesis by blast
qed

text \<open>
  C4. The claim: a file larger than the quota is accepted, the eviction pass removes the
  other files and never the one just written, and the returned path leads to that file.
  The loop of \<open>_enforce_cache_limit\<close> runs until the total is within the quota or the
  list is empty, and the new file is on the list: both the older file and the new one are
  deleted, the path of a file that is gone is returned, and the upload to S3 that follows
  finds no file.
\<close>

theorem oversized_put_is_evicted:
  "get_db_path (example_cfg (Some ''fia-data'') 3)
     (example_env 1 0 No_such_key (Fetched (new_file ''abcde'' 1))) ''NC''
     (world_of [(''GA.duckdb'', new_file ''gg'' 0)]) =
   (Inr ''/data/fia/NC.duckdb'',
    \<lparr>local_files = [],
     calls = [S3_download_file ''fia-duckdb/NC.duckdb'', Pyfia_download ''NC'',
              S3_upload_file ''fia-duckdb/NC.duckdb''],
     logs = [Info_cache_miss ''NC'', Info_evicted ''GA.duckdb'' 2, Info_evicted ''NC.duckdb'' 5,
             Warning_s3_upload_failed ''NC'' ''No such file or directory'']\<rparr>)"
  by code_simp

text \<open>
  C5. The claim: a backing file that is missing or empty counts as a miss, and the key
  is fetched again from a slower tier. A hit is decided by \<open>exists\<close> alone, so an empty
  file is served as a hit: no slower tier is asked and the file stays empty.
\<close>

theorem empty_file_is_a_hit_counterexample:
  "get_db_path (example_cfg (Some ''fia-data'') 10)
     (example_env 2 0 (Downloaded (new_file ''abcd'' 2)) (Fetched (new_file ''abcd'' 2))) ''NC''
     (world_of [(''NC.duckdb'', new_file [] 1)]) =
   (Inr ''/data/fia/NC.duckdb'',
    \<lparr>local_files = [(''NC.duckdb'', new_file [] 2)], calls = [],
     logs = [Debug_cache_hit_local ''NC'']\<rparr>)"
  by code_simp

text \<open>
  C5, as the code has it. When the file of the key is missing, \<open>get_db_path\<close> goes to
  a slower tier: the first call it makes is the S3 download when a bucket is configured,
  the DataMart download otherwise. When S3 or the DataMart delivers a file \<open>f\<close>, the path
  is returned, and \<open>f\<close> is the file of the key afterwards when the directory with \<open>f\<close>
  added is within the quota, and also when older files have to be evicted to make room:
  when \<open>f\<close> is no larger than the quota and was accessed later than every file already
  there. A file that exists, empty or not, is a hit: the path is returned, no call is
  made to the outside, and the file keeps its bytes and gets new time stamps. (There is
  no table of entries beside the directory, hence nothing to purge.)
\<close>

theorem missing_file_falls_through:
  assumes wf: "wf_dir (local_files w)"
  shows "(\<not> exists (local_files w) (file_name (upper state)) \<longrightarrow>
           (\<exists>cs. calls (snd (get_db_path cfg e state w)) =
              calls w @ (if truthy (s3_bucket cfg) then S3_download_file (s3_key cfg (upper state))
                         else Pyfia_download (upper state)) # cs)) \<and>
         (\<not> exists (local_files w) (file_name (upper state)) \<and>
          (truthy (s3_bucket cfg) \<and> s3_download e = Downloaded f \<or> pyfia_download e = Fetched f) \<longrightarrow>
            fst (get_db_path cfg e state w) = Inr (local_path cfg (upper state))) \<and>
         (\<not> exists (local_files w) (file_name (upper state)) \<and>
          (truthy (s3_bucket cfg) \<and> s3_download e = Downloaded f \<or>
           \<not> (truthy (s3_bucket cfg) \<and> (\<exists>g. s3_download e = Downloaded g)) \<and>
             pyfia_download e = Fetched f) \<and>
          (real_of_int (total_size (local_files w) + int (st_size f)) \<le> max_local_bytes cfg \<or>
           real (st_size f) \<le> max_local_bytes cfg \<and>
             (\<forall>y\<in>set (local_files w). st_atime (snd y) < st_atime f)) \<longrightarrow>
            lookup (local_files (snd (get_db_path cfg e state w))) (file_name (upper state)) = Some f) \<and>
         (lookup (local_files w) (file_name (upper state)) = Some f0 \<longrightarrow>
            fst (get_db_path cfg e state w) = Inr (local_path cfg (upper state)) \<and>
            calls (snd (get_db_path cfg e state w)) = calls w \<and>
            lookup (local_files (snd (get_db_path cfg e state w))) (file_name (upper state)) =
              Some (f0\<lparr>st_atime := now e, st_mtime := now e\<rparr>))"
proof (intro conjI impI)
  assume miss: "\<not> exists (local_files w) (file_name (upper state))"
  show "\<exists>cs. calls (snd (get_db_path cfg e state w)) =
              calls w @ (if truthy (s3_bucket cfg) then S3_download_file (s3_key cfg (upper state))
                         else Pyfia_download (upper state)) # cs"
  proof (cases "truthy (s3_bucket cfg) \<and> (\<exists>g. s3_download e = Downloaded g)")
    case True
    then obtain g where s3: "truthy (s3_bucket cfg)" and dl: "s3_download e = Downloaded g" by blast
    from s3_hit_facts(2)[OF miss s3 dl] s3 show ?thesis by simp
  next
    case False
    show ?thesis
    proof (cases "pyfia_download e")
      case (Fetched f')
      from origin_ok_facts(2)[OF miss False Fetched] show ?thesis by simp
    next
      case (Fetch_failed msg)
      from origin_failed_facts(2)[OF miss False Fetch_failed] show ?thesis by simp
    qed
  qed
next
  assume a: "\<not> exists (local_files w) (file_name (upper state)) \<and>
          (truthy (s3_bucket cfg) \<and> s3_download e = Downloaded f \<or> pyfia_download e = Fetched f)"
  then have miss: "\<not> exists (local_files w) (file_name (upper state))" by blast
  show "fst (get_db_path cfg e state w) = Inr (local_path cfg (upper state))"
  proof (cases "truthy (s3_bucket cfg) \<and> (\<exists>g. s3_download e = Downloaded g)")
    case True
    then obtain g where s3: "truthy (s3_bucket cfg)" and dl: "s3_download e = Downloaded g" by blast
    from s3_hit_facts(1)[OF miss s3 dl] show ?thesis .
  next
    case False
    with a have "pyfia_download e = Fetched f" by blast
    from origin_ok_facts(1)[OF miss False this] show ?thesis .
  qed
next
  assume a: "\<not> exists (local_files w) (file_name (upper state)) \<and>
          (truthy (s3_bucket cfg) \<and> s3_download e = Downloaded f \<or>
           \<not> (truthy (s3_bucket cfg) \<and> (\<exists>g. s3_download e = Downloaded g)) \<and>
             pyfia_download e = Fetched f) \<and>
          (real_of_int (total_size (local_files w) + int (st_size f)) \<le> max_local_bytes cfg \<or>
           real (st_size f) \<le> max_local_bytes cfg \<and>
             (\<forall>y\<in>set (local_files w). st_atime (snd y) < st_atime f))"
  let ?n = "file_name (upper state)"
  from a have miss: "\<not> exists (local_files w) ?n" by blast
  from a have del: "truthy (s3_bucket cfg) \<and> s3_download e = Downloaded f \<or>
           \<not> (truthy (s3_bucket cfg) \<and> (\<exists>g. s3_download e = Downloaded g)) \<and>
             pyfia_download e = Fetched f" by blast
  from population_result[OF miss del] obtain pre
    where pre: "local_files pre = write_file (new_pos e) ?n f (local_files w)"
      and res: "local_files (snd (get_db_path cfg e state w)) =
                  local_files (enforce_cache_limit cfg pre)"
    by blast
  have wfp: "wf_dir (local_files pre)" using wf by (simp add: pre wf_dir_write_file)
  have mem: "(?n, f) \<in> set (local_files pre)" by (simp add: pre set_write_file_new[OF miss])
  have "(?n, f) \<in> set (local_files (enforce_cache_limit cfg pre))"
  proof (cases "real_of_int (total_size (local_files w) + int (st_size f)) \<le> max_local_bytes cfg")
    case True
    then have "real_of_int (total_size (local_files pre)) \<le> max_local_bytes cfg"
      using miss by (simp add: pre total_size_create)
    then have "enforce_cache_limit cfg pre = pre" by (rule enforce_within_quota)
    with mem show ?thesis by simp
  next
    case False
    with a have small: "real (st_size f) \<le> max_local_bytes cfg"
      and newer: "\<forall>y\<in>set (local_files w). st_atime (snd y) < st_atime f" by blast+
    have "\<forall>y\<in>set (local_files pre). y \<noteq> (?n, f) \<longrightarrow> st_atime (snd y) < st_atime f"
      using newer by (simp add: pre set_write_file_new[OF miss])
    from enforce_keeps_newest[OF wfp mem small this] show ?thesis .
  qed
  moreover have "wf_dir (local_files (enforce_cache_limit cfg pre))"
    using wfp by (rule wf_dir_enforce)
  ultimately have "lookup (local_files (enforce_cache_limit cfg pre)) ?n = Some f"
    using lookup_unique by fastforce
  then show "lookup (local_files (snd (get_db_path cfg e state w))) ?n = Some f"
    by (simp add: res)
next
  assume hit: "lookup (local_files w) (file_name (upper state)) = Some f0"
  then have ex: "exists (local_files w) (file_name (upper state))" by (simp add: exists_def)
  show "fst (get_db_path cfg e state w) = Inr (local_path cfg (upper state))"
    by (simp add: get_db_path_hit[OF ex])
  show "calls (snd (get_db_path cfg e state w)) = calls w"
    by (simp add: get_db_path_hit[OF ex] calls_touch logged_def)
  show "lookup (local_files (snd (get_db_path cfg e state w))) (file_name (upper state)) =
              Some (f0\<lparr>st_atime := now e, st_mtime := now e\<rparr>)"
    using hit by (simp add: get_db_path_hit[OF ex] touch_def logged_def store_def lookup_write_file)
qed

theorem missing_file_falls_through_witness:
  "wf_dir (local_files (world_of [(''GA.duckdb'', new_file ''gggg'' 1)])) \<and>
   \<not> exists (local_files (world_of [(''GA.duckdb'', new_file ''gggg'' 1)])) (file_name (upper ''nc'')) \<and>
   truthy (s3_bucket (example_cfg (Some ''fia-data'') 5)) \<and>
   s3_download (example_env 2 0 No_such_key (Fetched (new_file ''abcd'' 2))) = No_such_key \<and>
   pyfia_download (example_env 2 0 No_such_key (Fetched (new_file ''abcd'' 2))) =
     Fetched (new_file ''abcd'' 2) \<and>
   real (st_size (new_file ''abcd'' 2)) \<le> max_local_bytes (example_cfg (Some ''fia-data'') 5) \<and>
   st_atime (new_file ''gggg'' 1) < st_atime (new_file ''abcd'' 2) \<and>
   fst (get_db_path (example_cfg (Some ''fia-data'') 5)
     (example_env 2 0 No_such_key (Fetched (new_file ''abcd'' 2))) ''nc''
     (world_of [(''GA.duckdb'', new_file ''gggg'' 1)])) = Inr ''/data/fia/NC.duckdb'' \<and>
   lookup (local_files (snd (get_db_path (example_cfg (Some ''fia-data'') 5)
     (example_env 2 0 No_such_key (Fetched (new_file ''abcd'' 2))) ''nc''
     (world_of [(''GA.duckdb'', new_file ''gggg'' 1)])))) ''NC.duckdb'' = Some (new_file ''abcd'' 2) \<and>
   map fst (local_files (snd (get_db_path (example_cfg (Some ''fia-data'') 5)
     (example_env 2 0 No_such_key (Fetched (new_file ''abcd'' 2))) ''nc''
     (world_of [(''GA.duckdb'', new_file ''gggg'' 1)])))) = [''NC.duckdb''] \<and>
   lookup (local_files (world_of [(''NC.duckdb'', new_file [] 1)])) (file_name (upper ''nc'')) =
     Some (new_file [] 1) \<and>
   st_size (new_file [] 1) = 0 \<and>
   fst (get_db_path (example_cfg (Some ''fia-data'') 5)
     (example_env 2 0 No_such_key (Fetched (new_file ''abcd'' 2))) ''nc''
     (world_of [(''NC.duckdb'', new_file [] 1)])) = Inr ''/data/fia/NC.duckdb'' \<and>
   calls (snd (get_db_path (example_cfg (Some ''fia-data'') 5)
     (example_env 2 0 No_such_key (Fetched (new_file ''abcd'' 2))) ''nc''
     (world_of [(''NC.duckdb'', new_file [] 1)]))) = [] \<and>
   lookup (local_files (snd (get_db_path (example_cfg (Some ''fia-data'') 5)
     (example_env 2 0 No_such_key (Fetched (new_file ''abcd'' 2))) ''nc''
     (world_of [(''NC.duckdb'', new_file [] 1)])))) ''NC.duckdb'' = Some (new_file [] 2)"
proof -
  let ?cfg = "example_cfg (Some ''fia-data'') 5"
  let ?e = "example_env 2 0 No_such_key (Fetched (new_file ''abcd'' 2))"
  let ?f = "new_file ''abcd'' 2"
  let ?w = "world_of [(''GA.duckdb'', new_file ''gggg'' 1)]"
  let ?v = "world_of [(''NC.duckdb'', new_file [] 1)]"
  have up: "upper ''nc'' = ''NC''" by code_simp
  have nm: "file_name (upper ''nc'') = ''NC.duckdb''" by (simp add: up file_name_def)
  have pa: "local_path ?cfg (upper ''nc'') = ''/data/fia/NC.duckdb''"
    by (simp add: up local_path_def file_name_def example_cfg_def)
  have h1: "wf_dir (local_files ?w)" by (simp add: world_of_def wf_dir_def)
  have h2: "\<not> exists (local_files ?w) (file_name (upper ''nc''))"
    by (simp add: nm world_of_def exists_def lookup_def)
  have h3: "truthy (s3_bucket ?cfg)" by (simp add: truthy_def example_cfg_def)
  have h4: "s3_download ?e = No_such_key" by (simp add: example_env_def)
  have h5: "pyfia_download ?e = Fetched ?f" by (simp add: example_env_def)
  have h6: "real (st_size ?f) \<le> max_local_bytes ?cfg"
    by (simp add: st_size_def new_file_def example_cfg_def)
  have h7: "st_atime (new_file ''gggg'' 1) < st_atime ?f" by (simp add: new_file_def)
  have h7': "\<forall>y\<in>set (local_files ?w). st_atime (snd y) < st_atime ?f"
    using h7 by (simp add: world_of_def)
  have no_hit: "\<not> (truthy (s3_bucket ?cfg) \<and> (\<exists>g. s3_download ?e = Downloaded g))"
    by (simp add: h4)
  have names: "map fst (local_files (snd (get_db_path ?cfg ?e ''nc'' ?w))) = [''NC.duckdb'']"
    by code_simp
  from missing_file_falls_through[OF h1, of "''nc''" ?cfg ?e ?f] h2 h5 h6 h7' no_hit
  have r1: "fst (get_db_path ?cfg ?e ''nc'' ?w) = Inr (local_path ?cfg (upper ''nc'')) \<and>
        lookup (local_files (snd (get_db_path ?cfg ?e ''nc'' ?w))) (file_name (upper ''nc'')) = Some ?f"
    by blast
  have g1: "wf_dir (local_files ?v)" by (simp add: world_of_def wf_dir_def)
  have g2: "lookup (local_files ?v) (file_name (upper ''nc'')) = Some (new_file [] 1)"
    by (simp add: nm world_of_def lookup_def)
  have g3: "st_size (new_file [] 1) = 0" by (simp add: st_size_def new_file_def)
  from missing_file_falls_through[OF g1, of "''nc''" ?cfg ?e ?f "new_file [] 1"] g2
  have r2: "fst (get_db_path ?cfg ?e ''nc'' ?v) = Inr (local_path ?cfg (upper ''nc'')) \<and>
        calls (snd (get_db_path ?cfg ?e ''nc'' ?v)) = calls ?v \<and>
        lookup (local_files (snd (get_db_path ?cfg ?e ''nc'' ?v))) (file_name (upper ''nc'')) =
          Some ((new_file [] 1)\<lparr>st_atime := now ?e, st_mtime := now ?e\<rparr>)"
    by blast
  have t: "(new_file [] 1)\<lparr>st_atime := now ?e, st_mtime := now ?e\<rparr> = new_file [] 2"
    by (simp add: new_file_def example_env_def)
  have cv: "calls ?v = []" by (simp add: world_of_def)
  from r1 have r1': "fst (get_db_path ?cfg ?e ''nc'' ?w) = Inr ''/data/fia/NC.duckdb'' \<and>
        lookup (local_files (snd (get_db_path ?cfg ?e ''nc'' ?w))) ''NC.duckdb'' = Some ?f"
    by (simp only: nm pa)
  from r2 have r2': "fst (get_db_path ?cfg ?e ''nc'' ?v) = Inr ''/data/fia/NC.duckdb'' \<and>
        calls (snd (get_db_path ?cfg ?e ''nc'' ?v)) = [] \<and>
        lookup (local_files (snd (get_db_path ?cfg ?e ''nc'' ?v))) ''NC.duckdb'' = Some (new_file [] 2)"
    by (simp only: nm pa t cv)
  from h1 h2 h3 h4 h5 h6 h7 names g2 g3 r1' r2' show ?thesis by blast
qed

text \<open>
  C6. The claim: "object not found" and a transport error come back from the S3 tier as
  two distinct results. \<open>_download_from_s3\<close> returns a \<open>bool\<close>, and both \<open>except\<close>
  branches return \<open>False\<close>: the caller receives the same value.
\<close>

theorem s3_not_found_and_failure_counterexample:
  "fst (download_from_s3 (example_cfg (Some ''fia-data'') 10)
          (example_env 1 0 No_such_key (Fetch_failed ''unreachable'')) ''NC'' empty_world) =
   fst (download_from_s3 (example_cfg (Some ''fia-data'') 10)
          (example_env 1 0 (Download_failed ''timed out'') (Fetch_failed ''unreachable''))
          ''NC'' empty_world)"
  by code_simp

text \<open>
  C6, as the code has it. With a bucket configured, "object not found" and a transport
  error both make \<open>_download_from_s3\<close> return \<open>False\<close> after one call of \<open>download_file\<close>;
  they differ in the log alone, where the transport error leaves a warning. In either
  case \<open>get_db_path\<close>, for a key whose file is missing, goes on to the DataMart: its next
  call after the S3 download is \<open>pyfia.download\<close>.
\<close>

theorem s3_not_found_and_failure_both_false:
  assumes s3: "has_s3 cfg"
    and answer: "s3_download e = No_such_key \<or> s3_download e = Download_failed msg"
  shows "fst (download_from_s3 cfg e state w) = False \<and>
         calls (snd (download_from_s3 cfg e state w)) =
           calls w @ [S3_download_file (s3_key cfg state)] \<and>
         logs (snd (download_from_s3 cfg e state w)) =
           (if s3_download e = No_such_key then logs w
            else logs w @ [Warning_s3_download_failed state msg]) \<and>
         (\<not> exists (local_files w) (file_name (upper st)) \<longrightarrow>
            (\<exists>cs. calls (snd (get_db_path cfg e st w)) =
               calls w @ S3_download_file (s3_key cfg (upper st)) # Pyfia_download (upper st) # cs))"
proof -
  have first: "fst (download_from_s3 cfg e state w) = False \<and>
         calls (snd (download_from_s3 cfg e state w)) =
           calls w @ [S3_download_file (s3_key cfg state)] \<and>
         logs (snd (download_from_s3 cfg e state w)) =
           (if s3_download e = No_such_key then logs w
            else logs w @ [Warning_s3_download_failed state msg])"
    using s3 answer by (auto simp: download_from_s3_def Let_def called_def logged_def)
  have origin: "\<exists>cs. calls (snd (get_db_path cfg e st w)) =
               calls w @ S3_download_file (s3_key cfg (upper st)) # Pyfia_download (upper st) # cs"
    if miss: "\<not> exists (local_files w) (file_name (upper st))"
  proof -
    from s3 have t: "truthy (s3_bucket cfg)" by (simp add: has_s3_def)
    from answer have nohit: "\<not> (truthy (s3_bucket cfg) \<and> (\<exists>g. s3_download e = Downloaded g))"
      by auto
    show ?thesis
    proof (cases "pyfia_download e")
      case (Fetched f)
      from origin_ok_facts(2)[OF miss nohit Fetched] t show ?thesis by simp
    next
      case (Fetch_failed m)
      from origin_failed_facts(2)[OF miss nohit Fetch_failed] t show ?thesis by simp
    qed
  qed
  from first origin show ?thesis by blast
qed

theorem s3_not_found_and_failure_both_false_witness:
  "has_s3 (example_cfg (Some ''fia-data'') 10) \<and>
   s3_download (example_env 2 0 (Download_failed ''timed out'') (Fetch_failed ''unreachable''))
     = Download_failed ''timed out'' \<and>
   \<not> exists (local_files empty_world) (file_name (upper ''NC'')) \<and>
   fst (download_from_s3 (example_cfg (Some ''fia-data'') 10)
     (example_env 2 0 (Download_failed ''timed out'') (Fetch_failed ''unreachable''))
     ''NC'' empty_world) = False \<and>
   calls (snd (download_from_s3 (example_cfg (Some ''fia-data'') 10)
     (example_env 2 0 (Download_failed ''timed out'') (Fetch_failed ''unreachable''))
     ''NC'' empty_world)) = [S3_download_file ''fia-duckdb/NC.duckdb''] \<and>
   logs (snd (download_from_s3 (example_cfg (Some ''fia-data'') 10)
     (example_env 2 0 (Download_failed ''timed out'') (Fetch_failed ''unreachable''))
     ''NC'' empty_world)) = [Warning_s3_download_failed ''NC'' ''timed out''] \<and>
   take 2 (calls (snd (get_db_path (example_cfg (Some ''fia-data'') 10)
     (example_env 2 0 (Download_failed ''timed out'') (Fetch_failed ''unreachable''))
     ''NC'' empty_world))) = [S3_download_file ''fia-duckdb/NC.duckdb'', Pyfia_download ''NC'']"
proof -
  let ?cfg = "example_cfg (Some ''fia-data'') 10"
  let ?e = "example_env 2 0 (Download_failed ''timed out'') (Fetch_failed ''unreachable'')"
  have h1: "has_s3 ?cfg" by (simp add: has_s3_def truthy_def example_cfg_def)
  have h2: "s3_download ?e = Download_failed ''timed out''" by (simp add: example_env_def)
  then have h2': "s3_download ?e = No_such_key \<or> s3_download ?e = Download_failed ''timed out''"
    by (rule disjI2)
  have h3: "\<not> exists (local_files empty_world) (file_name (upper ''NC''))"
    by (simp add: empty_world_def exists_def lookup_def)
  have up: "upper ''NC'' = ''NC''" by code_simp
  have k: "s3_key ?cfg ''NC'' = ''fia-duckdb/NC.duckdb''"
    by (simp add: s3_key_def file_name_def example_cfg_def)
  have n: "s3_download ?e \<noteq> No_such_key" by (simp add: example_env_def)
  have c0: "calls empty_world = []" "logs empty_world = []" by (simp_all add: empty_world_def)
  note inst = s3_not_found_and_failure_both_false[OF h1 h2', of "''NC''" empty_world "''NC''"]
  from inst h3 obtain cs where
    "calls (snd (get_db_path ?cfg ?e ''NC'' empty_world)) =
       calls empty_world @ S3_download_file (s3_key ?cfg (upper ''NC'')) #
         Pyfia_download (upper ''NC'') # cs"
    by blast
  then have g: "take 2 (calls (snd (get_db_path ?cfg ?e ''NC'' empty_world))) =
      [S3_download_file ''fia-duckdb/NC.duckdb'', Pyfia_download ''NC'']"
    by (simp add: up k c0)
  from inst have d: "fst (download_from_s3 ?cfg ?e ''NC'' empty_world) = False \<and>
     calls (snd (download_from_s3 ?cfg ?e ''NC'' empty_world)) =
       [S3_download_file ''fia-duckdb/NC.duckdb''] \<and>
     logs (snd (download_from_s3 ?cfg ?e ''NC'' empty_world)) =
       [Warning_s3_download_failed ''NC'' ''timed out'']"
    by (simp add: k n c0)
  from h1 h2 h3 g d show ?thesis by blast
qed

text \<open>
  C7. The claim: two calls of \<open>get_db_path\<close> for the same key return the same path,
  and the second makes no call to S3 or to the DataMart. The paths are equal. The second
  call is served locally when the first one left the file (\<open>second_resolve_is_local\<close>); with a
  file of 5 bytes and a quota of 3 bytes the eviction pass of the first call deletes the
  file it has just fetched, and the second call downloads from the DataMart again.
\<close>

theorem oversized_second_resolve_uses_network:
  "fst oversized_origin_first = Inr ''/data/fia/NC.duckdb'' \<and>
   fst oversized_origin_second = Inr ''/data/fia/NC.duckdb'' \<and>
   calls (snd oversized_origin_first) = [Pyfia_download ''NC''] \<and>
   calls (snd oversized_origin_second) = [Pyfia_download ''NC'', Pyfia_download ''NC'']"
  by code_simp

text \<open>
  C8. The claim: the eviction pass deletes the file with the oldest access time first,
  and among files with the same access time the one registered first. The code sorts the
  listing by \<open>st_atime\<close> with a stable sort, so ties are deleted in the order of the
  listing, whatever the order in which the files came. Below, \<open>A\<close> is fetched before
  \<open>B\<close>, both with access time 5, the file system lists \<open>B\<close> first, and it is \<open>B\<close> that is
  deleted when \<open>C\<close> arrives.
\<close>

theorem tie_break_counterexample:
  "local_files tie_world1 = [(''A.duckdb'', new_file ''aaaa'' 5)] \<and>
   local_files tie_world2 =
     [(''B.duckdb'', new_file ''bbbb'' 5), (''A.duckdb'', new_file ''aaaa'' 5)] \<and>
   local_files tie_world3 =
     [(''A.duckdb'', new_file ''aaaa'' 5), (''C.duckdb'', new_file ''cccc'' 6)]"
  by code_simp

text \<open>
  C8, as the code has it. An eviction pass deletes a prefix of the listing sorted by
  \<open>st_atime\<close> (stable, so ties keep the order of the listing): before each deletion the
  files not yet deleted exceed the quota, and the pass stops as soon as they do not, so
  the prefix is the shortest one whose removal brings the total within the quota. Hence
  each deleted file has an access time no later than that of each kept file, and where
  the two times are equal the deleted file comes before the kept one in the listing.
  When the total exceeds the quota and removing the least recently accessed file alone
  brings it within the quota, that file and no other is deleted: with \<open>A\<close>, \<open>B\<close>, \<open>C\<close>
  last read at times 1, 2, 3, \<open>B\<close> read again at time 4, and a quota that forces one
  eviction, \<open>A\<close> is deleted and \<open>B\<close>, \<open>C\<close> stay.
\<close>

theorem evicts_least_recently_used:
  assumes wf: "wf_dir (local_files w)"
  shows "(\<exists>k\<le>length (local_files w).
            local_files (enforce_cache_limit cfg w) =
              filter (\<lambda>e. fst e \<notin> fst ` set (take k (sort_key (\<lambda>f. st_atime (snd f)) (local_files w))))
                (local_files w) \<and>
            (\<forall>j<k. max_local_bytes cfg <
                real_of_int (total_size (drop j (sort_key (\<lambda>f. st_atime (snd f)) (local_files w))))) \<and>
            (k < length (local_files w) \<longrightarrow>
                real_of_int (total_size (drop k (sort_key (\<lambda>f. st_atime (snd f)) (local_files w))))
                  \<le> max_local_bytes cfg)) \<and>
         (x \<in> set (local_files w) \<and>
          \<not> exists (local_files (enforce_cache_limit cfg w)) (fst x) \<and>
          s \<in> set (local_files (enforce_cache_limit cfg w)) \<longrightarrow>
            max_local_bytes cfg < real_of_int (total_size (local_files w)) \<and>
            st_atime (snd x) \<le> st_atime (snd s) \<and>
            (st_atime (snd x) = st_atime (snd s) \<longrightarrow> precedes (local_files w) x s)) \<and>
         (sort_key (\<lambda>f. st_atime (snd f)) (local_files w) = oldest # rest \<and>
          max_local_bytes cfg < real_of_int (total_size (local_files w)) \<and>
          real_of_int (total_size (local_files w) - int (st_size (snd oldest))) \<le> max_local_bytes cfg \<longrightarrow>
            local_files (enforce_cache_limit cfg w) = unlink (fst oldest) (local_files w))"
proof (intro conjI impI)
  show "\<exists>k\<le>length (local_files w).
            local_files (enforce_cache_limit cfg w) =
              filter (\<lambda>e. fst e \<notin> fst ` set (take k (sort_key (\<lambda>f. st_atime (snd f)) (local_files w))))
                (local_files w) \<and>
            (\<forall>j<k. max_local_bytes cfg <
                real_of_int (total_size (drop j (sort_key (\<lambda>f. st_atime (snd f)) (local_files w))))) \<and>
            (k < length (local_files w) \<longrightarrow>
                real_of_int (total_size (drop k (sort_key (\<lambda>f. st_atime (snd f)) (local_files w))))
                  \<le> max_local_bytes cfg)"
    by (rule enforce_prefix)
next
  assume a: "x \<in> set (local_files w) \<and>
          \<not> exists (local_files (enforce_cache_limit cfg w)) (fst x) \<and>
          s \<in> set (local_files (enforce_cache_limit cfg w))"
  then have 1: "x \<in> set (local_files w)"
    and 2: "\<not> exists (local_files (enforce_cache_limit cfg w)) (fst x)"
    and 3: "s \<in> set (local_files (enforce_cache_limit cfg w))" by blast+
  note facts = evicted_older_than_kept[OF wf 1 2 3]
  from facts show "max_local_bytes cfg < real_of_int (total_size (local_files w))" by blast
  from facts show "st_atime (snd x) \<le> st_atime (snd s)" by blast
  assume "st_atime (snd x) = st_atime (snd s)"
  with facts show "precedes (local_files w) x s" by blast
next
  assume "sort_key (\<lambda>f. st_atime (snd f)) (local_files w) = oldest # rest \<and>
          max_local_bytes cfg < real_of_int (total_size (local_files w)) \<and>
          real_of_int (total_size (local_files w) - int (st_size (snd oldest))) \<le> max_local_bytes cfg"
  then show "local_files (enforce_cache_limit cfg w) = unlink (fst oldest) (local_files w)"
    using enforce_one by blast
qed

theorem evicts_least_recently_used_witness:
  "wf_dir (local_files lru_before) \<and>
   sort_key (\<lambda>f. st_atime (snd f)) (local_files lru_before) =
     (''A.duckdb'', new_file ''aaa'' 1) #
     [(''C.duckdb'', new_file ''ccc'' 3), (''B.duckdb'', new_file ''bbb'' 4),
      (''D.duckdb'', new_file ''ddd'' 5)] \<and>
   max_local_bytes (example_cfg None 10) < real_of_int (total_size (local_files lru_before)) \<and>
   real_of_int (total_size (local_files lru_before) - int (st_size (new_file ''aaa'' 1)))
     \<le> max_local_bytes (example_cfg None 10) \<and>
   local_files (enforce_cache_limit (example_cfg None 10) lru_before) =
     [(''B.duckdb'', new_file ''bbb'' 4), (''C.duckdb'', new_file ''ccc'' 3),
      (''D.duckdb'', new_file ''ddd'' 5)] \<and>
   wf_dir (local_files tie_before) \<and>
   (''B.duckdb'', new_file ''bbbb'' 5) \<in> set (local_files tie_before) \<and>
   \<not> exists (local_files (enforce_cache_limit (example_cfg None 10) tie_before)) ''B.duckdb'' \<and>
   (''A.duckdb'', new_file ''aaaa'' 5)
      \<in> set (local_files (enforce_cache_limit (example_cfg None 10) tie_before)) \<and>
   st_atime (new_file ''bbbb'' 5) = st_atime (new_file ''aaaa'' 5) \<and>
   precedes (local_files tie_before) (''B.duckdb'', new_file ''bbbb'' 5)
     (''A.duckdb'', new_file ''aaaa'' 5)"
proof -
  let ?cfg = "example_cfg None 10"
  let ?a = "(''A.duckdb'', new_file ''aaa'' 1)"
  let ?rest = "[(''C.duckdb'', new_file ''ccc'' 3), (''B.duckdb'', new_file ''bbb'' 4),
      (''D.duckdb'', new_file ''ddd'' 5)]"
  have h1: "wf_dir (local_files lru_before)" by code_simp
  have h2: "sort_key (\<lambda>f. st_atime (snd f)) (local_files lru_before) = ?a # ?rest" by code_simp
  have h3: "max_local_bytes ?cfg < real_of_int (total_size (local_files lru_before))" by code_simp
  have h4: "real_of_int (total_size (local_files lru_before) - int (st_size (snd ?a)))
     \<le> max_local_bytes ?cfg" by code_simp
  have u: "unlink (fst ?a) (local_files lru_before) =
     [(''B.duckdb'', new_file ''bbb'' 4), (''C.duckdb'', new_file ''ccc'' 3),
      (''D.duckdb'', new_file ''ddd'' 5)]" by code_simp
  from evicts_least_recently_used[OF h1, where cfg = ?cfg and oldest = ?a and rest = ?rest] h2 h3 h4
  have "local_files (enforce_cache_limit ?cfg lru_before) = unlink (fst ?a) (local_files lru_before)"
    by blast
  with u have lru: "local_files (enforce_cache_limit ?cfg lru_before) =
     [(''B.duckdb'', new_file ''bbb'' 4), (''C.duckdb'', new_file ''ccc'' 3),
      (''D.duckdb'', new_file ''ddd'' 5)]" by simp
  from h4 have h4': "real_of_int (total_size (local_files lru_before) - int (st_size (new_file ''aaa'' 1)))
     \<le> max_local_bytes ?cfg" by simp
  let ?y = "(''B.duckdb'', new_file ''bbbb'' 5)"
  let ?t = "(''A.duckdb'', new_file ''aaaa'' 5)"
  have t1: "wf_dir (local_files tie_before)" by code_simp
  have t2: "?y \<in> set (local_files tie_before)" by code_simp
  have t3: "\<not> exists (local_files (enforce_cache_limit ?cfg tie_before)) (fst ?y)" by code_simp
  have t4: "?t \<in> set (local_files (enforce_cache_limit ?cfg tie_before))" by code_simp
  have t5: "st_atime (snd ?y) = st_atime (snd ?t)" by (simp add: new_file_def)
  from evicts_least_recently_used[OF t1, where cfg = ?cfg and x = ?y and s = ?t] t2 t3 t4 t5
  have "precedes (local_files tie_before) ?y ?t" by blast
  with t1 t2 t3 t4 t5
  have tie: "wf_dir (local_files tie_before) \<and>
     ?y \<in> set (local_files tie_before) \<and>
     \<not> exists (local_files (enforce_cache_limit ?cfg tie_before)) ''B.duckdb'' \<and>
     ?t \<in> set (local_files (enforce_cache_limit ?cfg tie_before)) \<and>
     st_atime (new_file ''bbbb'' 5) = st_atime (new_file ''aaaa'' 5) \<and>
     precedes (local_files tie_before) ?y ?t"
    by simp
  from h1 h2 h3 h4' lru tie show ?thesis by blast
qed

text \<open>
  C10. When the file of the key is already in the cache directory, \<open>get_db_path\<close>
  returns its path and changes nothing but the two time stamps of that one file: the calls
  made to the outside are the same as before, the listing holds the same names in the
  same order, each other file is as it was, the bytes of the file itself are kept, and no
  eviction pass runs (the only log line is the cache hit; the quota is not looked at).
\<close>

theorem local_hit_touches_only:
  assumes wf: "wf_dir (local_files w)"
    and hit: "exists (local_files w) (file_name (upper state))"
  shows "fst (get_db_path cfg e state w) = Inr (local_path cfg (upper state)) \<and>
         calls (snd (get_db_path cfg e state w)) = calls w \<and>
         local_files (snd (get_db_path cfg e state w)) =
           map (\<lambda>en. if fst en = file_name (upper state)
                      then (fst en, (snd en)\<lparr>st_atime := now e, st_mtime := now e\<rparr>) else en)
             (local_files w) \<and>
         logs (snd (get_db_path cfg e state w)) = logs w @ [Debug_cache_hit_local (upper state)]"
proof -
  let ?w = "logged (Debug_cache_hit_local (upper state)) w"
  have lf: "local_files ?w = local_files w" by (simp add: logged_def)
  from wf hit have wf': "wf_dir (local_files ?w)" and hit': "exists (local_files ?w) (file_name (upper state))"
    by (simp_all add: lf)
  from touch_existing[OF wf' hit', of e] show ?thesis
    by (simp add: get_db_path_hit[OF hit] logged_def)
qed

theorem local_hit_touches_only_witness:
  "wf_dir (local_files (world_of [(''NC.duckdb'', new_file ''abc'' 1), (''GA.duckdb'', new_file ''de'' 2)])) \<and>
   exists (local_files (world_of [(''NC.duckdb'', new_file ''abc'' 1), (''GA.duckdb'', new_file ''de'' 2)]))
     (file_name (upper ''nc'')) \<and>
   get_db_path (example_cfg (Some ''fia-data'') 1)
     (example_env 7 0 (Downloaded (new_file ''xyz'' 7)) (Fetched (new_file ''xyz'' 7))) ''nc''
     (world_of [(''NC.duckdb'', new_file ''abc'' 1), (''GA.duckdb'', new_file ''de'' 2)]) =
   (Inr ''/data/fia/NC.duckdb'',
    \<lparr>local_files = [(''NC.duckdb'', \<lparr>content = ''abc'', st_atime = 7, st_mtime = 7\<rparr>),
                    (''GA.duckdb'', new_file ''de'' 2)],
     calls = [], logs = [Debug_cache_hit_local ''NC'']\<rparr>)"
proof -
  let ?w = "world_of [(''NC.duckdb'', new_file ''abc'' 1), (''GA.duckdb'', new_file ''de'' 2)]"
  let ?cfg = "example_cfg (Some ''fia-data'') 1"
  let ?e = "example_env 7 0 (Downloaded (new_file ''xyz'' 7)) (Fetched (new_file ''xyz'' 7))"
  have up: "upper ''nc'' = ''NC''" by code_simp
  have h1: "wf_dir (local_files ?w)" by (simp add: world_of_def wf_dir_def)
  have h2: "exists (local_files ?w) (file_name (upper ''nc''))"
    by (simp add: up world_of_def exists_def lookup_def file_name_def)
  from local_hit_touches_only[OF h1 h2, of ?cfg ?e]
  have "get_db_path ?cfg ?e ''nc'' ?w =
     (Inr ''/data/fia/NC.duckdb'',
      \<lparr>local_files = [(''NC.duckdb'', \<lparr>content = ''abc'', st_atime = 7, st_mtime = 7\<rparr>),
                      (''GA.duckdb'', new_file ''de'' 2)],
       calls = [], logs = [Debug_cache_hit_local ''NC'']\<rparr>)"
    by (cases "get_db_path ?cfg ?e ''nc'' ?w")
       (simp add: up world_of_def example_cfg_def example_env_def new_file_def local_path_def
          file_name_def)
  with h1 h2 show ?thesis by blast
qed

end
